theory Spec2Isabelle
  imports Complex_Main "HOL-Library.Multiset" "HOL-Library.Sublist"
begin

chapter \<open>The search routes\<close>

section \<open>Data model\<close>

text \<open>
  The search routes of the repository share one result shape, the TypeScript interface
  \<^verbatim>\<open>SearchResult\<close>. Every variant declares the first ten fields; the optional
  fields \<^verbatim>\<open>source\<close> (keyword-boost and rerank variants), \<^verbatim>\<open>relevanceScore\<close>
  (rerank variant), \<^verbatim>\<open>matchedQueries\<close> (multi-query variant) and
  \<^verbatim>\<open>keywordMatches\<close> (attached by the keyword-boost variant) are \<open>None\<close> while
  absent. The field \<^verbatim>\<open>id\<close> is called \<open>id'\<close> here because \<open>id\<close> is the identity
  function of HOL.

  JavaScript numbers are modelled as exact reals: no rounding and no NaN. Strings are
  lists of 8-bit code units, i.e. the model covers strings whose UTF-16 code units are
  all below 256. A \<^verbatim>\<open>chunk_text\<close> that is null is represented by the empty
  string, which is what every use in the source turns it into
  (\<^verbatim>\<open>r.chunk_text?.toLowerCase() || ''\<close>).
\<close>

record SearchResult =
  id' :: int
  case_id :: int
  case_name :: string
  neutral_citation :: string
  court :: string
  decision_date :: string
  chunk_text :: string
  section_type :: string
  hklii_id :: string
  similarity :: real
  source :: "string option"
  relevanceScore :: "nat option"
  matchedQueries :: "string list option"
  keywordMatches :: "nat option"

text \<open>
  A row as a store returns it, for the worked examples: identifier, parent document,
  text and score, the other fields empty.
\<close>

definition mk_result :: "int \<Rightarrow> int \<Rightarrow> string \<Rightarrow> real \<Rightarrow> SearchResult" where
  "mk_result i c txt s =
     \<lparr> id' = i, case_id = c, case_name = [], neutral_citation = [], court = [],
       decision_date = [], chunk_text = txt, section_type = [], hklii_id = [],
       similarity = s, source = None, relevanceScore = None, matchedQueries = None,
       keywordMatches = None \<rparr>"

section \<open>Strings\<close>

text \<open>
  \<^verbatim>\<open>String.prototype.toLowerCase\<close> on code units below 256: the letters A to Z and
  the upper-case letters of the Latin-1 supplement (0xC0 to 0xDE but the multiplication
  sign 0xD7) are moved up by 32.
\<close>

definition is_upper :: "char \<Rightarrow> bool" where
  "is_upper c =
     (let n = (of_char c :: nat)
      in (65 \<le> n \<and> n \<le> 90) \<or> (192 \<le> n \<and> n \<le> 222 \<and> n \<noteq> 215))"

definition lower_char :: "char \<Rightarrow> char" where
  "lower_char c = (if is_upper c then char_of (of_char c + 32 :: nat) else c)"

definition toLowerCase :: "string \<Rightarrow> string" where
  "toLowerCase s = map lower_char s"

text \<open>
  The class \<^verbatim>\<open>\s\<close> of a JavaScript regular expression, on code units below 256:
  tab, line feed, vertical tab, form feed, carriage return, space, no-break space.
\<close>

definition is_space :: "char \<Rightarrow> bool" where
  "is_space c =
     (c \<in> {CHR 0x09, CHR 0x0A, CHR 0x0B, CHR 0x0C, CHR 0x0D, CHR 0x20, CHR 0xA0})"

text \<open>
  \<^verbatim>\<open>s.split(/\s+/)\<close>: the pieces between maximal runs of white space. A run at
  the start or at the end of the string leaves an empty piece there, and the empty
  string splits into one empty piece.
\<close>

function split_ws :: "string \<Rightarrow> string list" where
  "split_ws [] = [[]]"
| "split_ws (c # cs) =
     (if is_space c then [] # split_ws (dropWhile is_space cs)
      else (case split_ws cs of w # ws \<Rightarrow> (c # w) # ws | [] \<Rightarrow> [[c]]))"
  by pat_completeness auto
termination
  by (relation "measure length") (auto simp: length_dropWhile_le less_Suc_eq_le)

text \<open>\<^verbatim>\<open>s.split(d)\<close> for a separator \<open>d\<close> of one character.\<close>

fun split_on :: "char \<Rightarrow> string \<Rightarrow> string list" where
  "split_on d [] = [[]]"
| "split_on d (c # cs) =
     (if c = d then [] # split_on d cs
      else (case split_on d cs of w # ws \<Rightarrow> (c # w) # ws | [] \<Rightarrow> [[c]]))"

text \<open>\<^verbatim>\<open>text.includes(kw)\<close>: \<open>kw\<close> occurs in \<open>text\<close> as a contiguous substring.\<close>

fun includes_str :: "string \<Rightarrow> string \<Rightarrow> bool" where
  "includes_str [] kw = (kw = [])"
| "includes_str (c # cs) kw = (prefix kw (c # cs) \<or> includes_str cs kw)"

section \<open>List operations shared by the search routes\<close>

text \<open>
  \<^verbatim>\<open>const existing = allResults.find(p); existing.field = ...\<close> mutates the first
  element that satisfies \<open>p\<close>. The candidate objects of a request are created afresh by
  object spreads and are not shared between lists, so the mutation is an update of the
  list at the first match.
\<close>

fun update_first :: "('a \<Rightarrow> bool) \<Rightarrow> ('a \<Rightarrow> 'a) \<Rightarrow> 'a list \<Rightarrow> 'a list" where
  "update_first P f [] = []"
| "update_first P f (x # xs) = (if P x then f x # xs else x # update_first P f xs)"

text \<open>
  \<^verbatim>\<open>
  const seen = new Set()
  allResults = allResults.filter(r => {
      if (seen.has(r.id)) return false
      seen.add(r.id)
      return true
  })
  \<close>
\<close>

fun dedup_filter :: "int set \<Rightarrow> SearchResult list \<Rightarrow> SearchResult list" where
  "dedup_filter seen [] = []"
| "dedup_filter seen (r # rs) =
     (if id' r \<in> seen then dedup_filter seen rs
      else r # dedup_filter (insert (id' r) seen) rs)"

definition deduplicate :: "SearchResult list \<Rightarrow> SearchResult list" where
  "deduplicate allResults = dedup_filter {} allResults"

text \<open>
  \<^verbatim>\<open>results.sort((a, b) => b.similarity - a.similarity)\<close>: the sort of ECMAScript
  is stable, and so is insertion sort by the negated key.
\<close>

definition sort_by_similarity :: "SearchResult list \<Rightarrow> SearchResult list" where
  "sort_by_similarity results = sort_key (\<lambda>r. - similarity r) results"

section \<open>HTTP requests and responses\<close>

text \<open>
  A request body is either not JSON at all (\<^verbatim>\<open>request.json()\<close> throws) or carries
  the fields \<^verbatim>\<open>query\<close> and \<^verbatim>\<open>court\<close>; a field is \<open>None\<close> when it is absent or
  not a string. A response is an error with its status and message, or the success body
  with status 200. The field \<^verbatim>\<open>timeTaken\<close> of the body, a wall-clock reading, is
  left out.
\<close>

datatype request = Malformed | Request "string option" "string option"

record search_body =
  body_query :: string
  body_results :: "SearchResult list"
  body_aiAnswer :: "string option"

datatype 'b http_response = ErrorResponse nat string | OkResponse 'b

fun http_status :: "'b http_response \<Rightarrow> nat" where
  "http_status (ErrorResponse code msg) = code"
| "http_status (OkResponse body) = 200"

section \<open>Keyword-boost variant\<close>

text \<open>
  The route of the source file \<^verbatim>\<open>part_000\<close>: it always runs the keyword search
  beside the semantic search, boosts by keyword presence, sorts, deduplicates and keeps
  ten results.

  The outcome of the external calls is an input of the model. \<open>embedding_ok\<close> says that
  the embedding service answered with a vector of 384 numbers; \<open>vector_rows\<close> is the row
  list of the vector store, \<open>None\<close> when the call failed in any way; \<open>keyword_rows kw\<close>
  is the row list of the text search for \<open>kw\<close>, \<open>None\<close> when that call failed;
  \<open>chat_reply\<close> is the content of the chat completion, \<open>None\<close> when that call failed.
\<close>

record retrieval_env =
  embedding_ok :: bool
  vector_rows :: "SearchResult list option"
  keyword_rows :: "string \<Rightarrow> SearchResult list option"
  chat_reply :: "string option"

definition stopwords_kb :: "string list" where
  "stopwords_kb =
     [''from'', ''with'', ''that'', ''this'', ''have'', ''been'', ''were'', ''what'',
      ''when'', ''where'']"

text \<open>
  \<^verbatim>\<open>
  const keywords = query.toLowerCase()
      .split(/\s+/)
      .filter(w => w.length > 3)
      .filter(w => ![...].includes(w))
  \<close>
\<close>

definition extract_keywords :: "string list \<Rightarrow> string \<Rightarrow> string list" where
  "extract_keywords stopwords query =
     filter (\<lambda>w. w \<notin> set stopwords)
       (filter (\<lambda>w. length w > 3) (split_ws (toLowerCase query)))"

text \<open>Step 1: the semantic rows, each tagged with its source.\<close>

definition semantic_step :: "'a retrieval_env_scheme \<Rightarrow> SearchResult list" where
  "semantic_step env =
     (if embedding_ok env
      then (case vector_rows env of
              Some results \<Rightarrow> map (\<lambda>r. r\<lparr>source := Some ''semantic''\<rparr>) results
            | None \<Rightarrow> [])
      else [])"

text \<open>
  Step 2, the body of the inner loop:
  \<^verbatim>\<open>
  const existing = allResults.find(r => r.id === result.id)
  if (!existing) {
      allResults.push({ ...result, similarity: 0.6, source: 'keyword' })
  } else if (existing.source === 'keyword') {
      existing.similarity = Math.min(0.9, existing.similarity + 0.1)
  }
  \<close>
\<close>

definition add_keyword_result :: "SearchResult list \<Rightarrow> SearchResult \<Rightarrow> SearchResult list" where
  "add_keyword_result allResults result =
     (case find (\<lambda>r. id' r = id' result) allResults of
        None \<Rightarrow> allResults @ [result\<lparr>similarity := 0.6, source := Some ''keyword''\<rparr>]
      | Some existing \<Rightarrow>
          if source existing = Some ''keyword''
          then update_first (\<lambda>r. id' r = id' result)
                 (\<lambda>e. e\<lparr>similarity := min 0.9 (similarity e + 0.1)\<rparr>) allResults
          else allResults)"

text \<open>Step 2: one text search for each of the first five keywords.\<close>

definition keyword_step ::
  "(string \<Rightarrow> SearchResult list option) \<Rightarrow> string list \<Rightarrow> SearchResult list
     \<Rightarrow> SearchResult list"
where
  "keyword_step fetch keywords allResults =
     fold (\<lambda>keyword acc.
             case fetch keyword of
               None \<Rightarrow> acc
             | Some keywordResults \<Rightarrow> fold (\<lambda>result acc'. add_keyword_result acc' result) keywordResults acc)
       (take 5 keywords) allResults"

text \<open>
  Step 3, the keyword-presence boost:
  \<^verbatim>\<open>
  const textLower = result.chunk_text?.toLowerCase() || ''
  let keywordMatches = 0
  for (const kw of keywords) { if (textLower.includes(kw)) keywordMatches++ }
  const boost = keywordMatches > 0 ? 1 + (keywordMatches * 0.15) : 1
  return { ...result, similarity: Math.min(0.99, result.similarity * boost), keywordMatches }
  \<close>
\<close>

definition count_keyword_matches :: "string list \<Rightarrow> SearchResult \<Rightarrow> nat" where
  "count_keyword_matches keywords result =
     length (filter (\<lambda>kw. includes_str (toLowerCase (chunk_text result)) kw) keywords)"

definition boost_result :: "string list \<Rightarrow> SearchResult \<Rightarrow> SearchResult" where
  "boost_result keywords result =
     (let n = count_keyword_matches keywords result;
          boost = (if n > 0 then 1 + real n * 0.15 else 1)
      in result\<lparr>similarity := min 0.99 (similarity result * boost),
                keywordMatches := Some n\<rparr>)"

text \<open>Steps 1 to 3 up to the sort, then deduplication and the cut to ten results.\<close>

definition boosted_sorted :: "retrieval_env \<Rightarrow> string \<Rightarrow> SearchResult list" where
  "boosted_sorted env query =
     (let keywords = extract_keywords stopwords_kb query;
          allResults = keyword_step (keyword_rows env) keywords (semantic_step env)
      in sort_by_similarity (map (boost_result keywords) allResults))"

definition finalResults_kb :: "retrieval_env \<Rightarrow> string \<Rightarrow> SearchResult list" where
  "finalResults_kb env query = take 10 (deduplicate (boosted_sorted env query))"

text \<open>
  \<^verbatim>\<open>generateAnalysis\<close> never throws: a failed call gives a fixed text, an empty
  content another.
\<close>

definition generateAnalysis :: "string option \<Rightarrow> string" where
  "generateAnalysis reply =
     (case reply of
        None \<Rightarrow> ''Unable to generate analysis.''
      | Some content \<Rightarrow> if content = [] then ''Analysis unavailable.'' else content)"

definition guidance_kb :: "string \<Rightarrow> string" where
  "guidance_kb query =
     ''No relevant cases found for '' @ [CHR 0x22] @ query @ [CHR 0x22] @ ''.''
     @ [CHR 0x0A, CHR 0x0A] @ ''This could mean:'' @ [CHR 0x0A]
     @ ''1. The database doesn'' @ [CHR 0x27] @ ''t contain cases on this topic yet'' @ [CHR 0x0A]
     @ ''2. Try different search terms (e.g., '' @ [CHR 0x22] @ ''personal injury''
     @ [CHR 0x22] @ '' instead of specific injuries)'' @ [CHR 0x0A]
     @ ''3. Try broader legal concepts (e.g., '' @ [CHR 0x22] @ ''negligence'' @ [CHR 0x22]
     @ '', '' @ [CHR 0x22] @ ''damages'' @ [CHR 0x22] @ '', '' @ [CHR 0x22]
     @ ''compensation'' @ [CHR 0x22] @ '')''"

record body_kb = search_body +
  embeddingSuccess :: bool
  keywordsUsed :: "string list"
  totalCandidates :: nat

definition POST_kb :: "retrieval_env \<Rightarrow> request \<Rightarrow> body_kb http_response" where
  "POST_kb env req =
     (case req of
        Malformed \<Rightarrow> ErrorResponse 500 ''Search failed''
      | Request q crt \<Rightarrow>
          (case q of
             None \<Rightarrow> ErrorResponse 400 ''Query is required''
           | Some query \<Rightarrow>
               if query = [] then ErrorResponse 400 ''Query is required''
               else
                 let finalResults = finalResults_kb env query;
                     aiAnswer = (if length finalResults > 0
                                 then generateAnalysis (chat_reply env)
                                 else guidance_kb query)
                 in OkResponse
                      \<lparr> body_query = query, body_results = finalResults,
                        body_aiAnswer = Some aiAnswer,
                        embeddingSuccess = embedding_ok env,
                        keywordsUsed = extract_keywords stopwords_kb query,
                        totalCandidates = length (deduplicate (boosted_sorted env query)) \<rparr>))"

section \<open>Rerank variant\<close>

text \<open>
  The route of the source file \<^verbatim>\<open>part_001\<close>: it merges semantic and keyword
  rows, deduplicates, and hands the first fifteen candidates to a language model for
  relevance scores. Its environment adds the
  content of the scoring reply, \<open>None\<close> when the call failed or the reply could not be
  read.
\<close>

record rerank_env = retrieval_env +
  rerank_reply :: "string option"

definition stopwords_rr :: "string list" where
  "stopwords_rr =
     [''from'', ''with'', ''that'', ''this'', ''have'', ''been'', ''were'', ''what'',
      ''when'', ''where'', ''cases'']"

text \<open>
  Step 2, at most four keywords:
  \<^verbatim>\<open>
  if (!allResults.find(r => r.id === result.id)) {
      allResults.push({ ...result, similarity: 0.5, source: 'keyword' })
  }
  \<close>
\<close>

definition add_keyword_result_rr :: "SearchResult list \<Rightarrow> SearchResult \<Rightarrow> SearchResult list" where
  "add_keyword_result_rr allResults result =
     (case find (\<lambda>r. id' r = id' result) allResults of
        None \<Rightarrow> allResults @ [result\<lparr>similarity := 0.5, source := Some ''keyword''\<rparr>]
      | Some existing \<Rightarrow> allResults)"

definition keyword_step_rr ::
  "(string \<Rightarrow> SearchResult list option) \<Rightarrow> string list \<Rightarrow> SearchResult list
     \<Rightarrow> SearchResult list"
where
  "keyword_step_rr fetch keywords allResults =
     fold (\<lambda>keyword acc.
             case fetch keyword of
               None \<Rightarrow> acc
             | Some keywordResults \<Rightarrow>
                 fold (\<lambda>result acc'. add_keyword_result_rr acc' result) keywordResults acc)
       (take 4 keywords) allResults"

subsection \<open>Reading the scores\<close>

text \<open>
  \<^verbatim>\<open>
  const match = content.match(/\[[\d,\s]+\]/)
  if (match) { const scores = JSON.parse(match[0]) as number[] ... }
  \<close>
  The expression matches, at the leftmost possible opening bracket, a non-empty run of
  digits, commas and white space that is followed by a closing bracket. The run is
  greedy, and giving characters back cannot help, since the class holds no bracket.
  \<open>regex_match\<close> returns the text between the brackets of the match.
\<close>

definition is_digit :: "char \<Rightarrow> bool" where
  "is_digit c = (c \<in> set ''0123456789'')"

definition score_char :: "char \<Rightarrow> bool" where
  "score_char c = (is_digit c \<or> c = CHR '','' \<or> is_space c)"

definition match_here :: "string \<Rightarrow> string option" where
  "match_here cs =
     (let body = takeWhile score_char cs; rest = dropWhile score_char cs
      in if body \<noteq> [] \<and> (case rest of c # cs' \<Rightarrow> c = CHR '']'' | [] \<Rightarrow> False)
         then Some body else None)"

fun regex_match :: "string \<Rightarrow> string option" where
  "regex_match [] = None"
| "regex_match (c # cs) =
     (if c = CHR ''[''
      then (case match_here cs of Some body \<Rightarrow> Some body | None \<Rightarrow> regex_match cs)
      else regex_match cs)"

text \<open>
  \<^verbatim>\<open>JSON.parse\<close> on a bracketed run of digits, commas and white space. JSON knows
  four white-space characters (space, tab, line feed, carriage return), allows them
  around a value and not inside one, forbids a leading zero, an empty element and a
  trailing comma, and reads \<^verbatim>\<open>[ ]\<close> as the empty array. Where \<^verbatim>\<open>JSON.parse\<close>
  throws, the result is \<open>None\<close>. The values are natural numbers; the rounding of
  integers beyond 2 to the power 53 is not modelled.
\<close>

definition json_ws :: "char \<Rightarrow> bool" where
  "json_ws c = (c \<in> {CHR 0x20, CHR 0x09, CHR 0x0A, CHR 0x0D})"

definition trim_json_ws :: "string \<Rightarrow> string" where
  "trim_json_ws s = rev (dropWhile json_ws (rev (dropWhile json_ws s)))"

definition digit_value :: "char \<Rightarrow> nat" where
  "digit_value c = of_char c - 48"

definition json_number :: "string \<Rightarrow> nat option" where
  "json_number s =
     (if s \<noteq> [] \<and> list_all is_digit s \<and> (length s = 1 \<or> hd s \<noteq> CHR ''0'')
      then Some (foldl (\<lambda>n c. 10 * n + digit_value c) 0 s) else None)"

definition json_parse_array :: "string \<Rightarrow> nat list option" where
  "json_parse_array body =
     (if list_all json_ws body then Some []
      else those (map (\<lambda>piece. json_number (trim_json_ws piece)) (split_on (CHR '','') body)))"

definition parseScores :: "string \<Rightarrow> nat list option" where
  "parseScores content =
     (case regex_match content of None \<Rightarrow> None | Some body \<Rightarrow> json_parse_array body)"

text \<open>
  Some bracketed run of digits, commas and white space in the content is a JSON array
  of numbers.
\<close>

fun has_score_array :: "string \<Rightarrow> bool" where
  "has_score_array [] = False"
| "has_score_array (c # cs) =
     ((c = CHR ''['' \<and>
         (case match_here cs of Some body \<Rightarrow> json_parse_array body \<noteq> None | None \<Rightarrow> False))
      \<or> has_score_array cs)"

subsection \<open>The rerank stage\<close>

text \<open>
  \<^verbatim>\<open>
  const scoredResults = results.map((r, i) => ({
      ...r,
      relevanceScore: scores[i] ?? 5,
      similarity: r.similarity * (1 + (scores[i] ?? 5) / 20)
  }))
  const filtered = scoredResults.filter(r => (r.relevanceScore ?? 5) >= 4)
  filtered.sort((a, b) => {
      const scoreA = (a.relevanceScore ?? 5) * 0.7 + a.similarity * 10 * 0.3
      const scoreB = (b.relevanceScore ?? 5) * 0.7 + b.similarity * 10 * 0.3
      return scoreB - scoreA
  })
  return filtered
  \<close>
  On every other path (the call fails, nothing matches, \<^verbatim>\<open>JSON.parse\<close> throws) the
  function returns \<^verbatim>\<open>results.sort((a, b) => b.similarity - a.similarity)\<close>.
\<close>

definition score_at :: "nat list \<Rightarrow> nat \<Rightarrow> nat" where
  "score_at scores i = (if i < length scores then scores ! i else 5)"

definition apply_score :: "nat list \<Rightarrow> nat \<Rightarrow> SearchResult \<Rightarrow> SearchResult" where
  "apply_score scores i r =
     r\<lparr>relevanceScore := Some (score_at scores i),
       similarity := similarity r * (1 + real (score_at scores i) / 20)\<rparr>"

definition relevance_or_5 :: "SearchResult \<Rightarrow> nat" where
  "relevance_or_5 r = (case relevanceScore r of Some s \<Rightarrow> s | None \<Rightarrow> 5)"

definition combined_score :: "SearchResult \<Rightarrow> real" where
  "combined_score r = real (relevance_or_5 r) * 0.7 + similarity r * 10 * 0.3"

definition rerankWithAI :: "string \<Rightarrow> SearchResult list \<Rightarrow> string option \<Rightarrow> SearchResult list" where
  "rerankWithAI query results reply =
     (case reply of
        None \<Rightarrow> sort_by_similarity results
      | Some content \<Rightarrow>
          (case parseScores content of
             None \<Rightarrow> sort_by_similarity results
           | Some scores \<Rightarrow>
               let scoredResults = map (\<lambda>(i, r). apply_score scores i r) (enumerate 0 results);
                   filtered = filter (\<lambda>r. relevance_or_5 r \<ge> 4) scoredResults
               in sort_key (\<lambda>r. - combined_score r) filtered))"

text \<open>The candidates before the rerank stage, and the results of the route.\<close>

definition merged_rr :: "rerank_env \<Rightarrow> string \<Rightarrow> SearchResult list" where
  "merged_rr env query =
     deduplicate
       (keyword_step_rr (keyword_rows env) (extract_keywords stopwords_rr query)
          (semantic_step env))"

definition finalResults_rr :: "rerank_env \<Rightarrow> string \<Rightarrow> SearchResult list" where
  "finalResults_rr env query =
     (let allResults = merged_rr env query;
          allResults' = (if length allResults > 0
                         then rerankWithAI query (take 15 allResults) (rerank_reply env)
                         else allResults)
      in take 10 allResults')"

definition guidance_rr :: "string \<Rightarrow> string" where
  "guidance_rr query =
     ''No relevant cases found for '' @ [CHR 0x22] @ query @ [CHR 0x22] @ ''.''"

definition POST_rr :: "rerank_env \<Rightarrow> request \<Rightarrow> search_body http_response" where
  "POST_rr env req =
     (case req of
        Malformed \<Rightarrow> ErrorResponse 500 ''Search failed''
      | Request q crt \<Rightarrow>
          (case q of
             None \<Rightarrow> ErrorResponse 400 ''Query is required''
           | Some query \<Rightarrow>
               if query = [] then ErrorResponse 400 ''Query is required''
               else
                 let finalResults = finalResults_rr env query;
                     aiAnswer = (if length finalResults > 0
                                 then generateAnalysis (chat_reply env)
                                 else guidance_rr query)
                 in OkResponse
                      \<lparr> body_query = query, body_results = finalResults,
                        body_aiAnswer = Some aiAnswer \<rparr>))"

section \<open>Multi-query variant: result diversification\<close>

text \<open>
  \<^verbatim>\<open>
  function diversifyResults(results: SearchResult[], maxResults: number): SearchResult[] {
      const seenCases = new Map<number, number>()  // case_id -> count
      const diversified: SearchResult[] = []
      const maxPerCase = 3
      for (const result of results) {
          const caseCount = seenCases.get(result.case_id) || 0
          if (caseCount < maxPerCase) {
              diversified.push(result)
              seenCases.set(result.case_id, caseCount + 1)
          }
          if (diversified.length >= maxResults) break
      }
      return diversified
  }
  \<close>
  The loop state is the map \<open>seenCases\<close> and the list \<open>diversified\<close>; the test of
  the result cap comes after the push, at the end of each iteration.
\<close>

definition maxPerCase :: nat where
  "maxPerCase = 3"

fun diversify_loop ::
  "(int \<rightharpoonup> nat) \<Rightarrow> SearchResult list \<Rightarrow> SearchResult list \<Rightarrow> nat \<Rightarrow> SearchResult list"
where
  "diversify_loop seenCases diversified [] maxResults = diversified"
| "diversify_loop seenCases diversified (result # results) maxResults =
     (let caseCount = (case seenCases (case_id result) of None \<Rightarrow> 0 | Some c \<Rightarrow> c);
          diversified' = (if caseCount < maxPerCase then diversified @ [result] else diversified);
          seenCases' = (if caseCount < maxPerCase
                        then seenCases(case_id result \<mapsto> caseCount + 1) else seenCases)
      in if length diversified' \<ge> maxResults then diversified'
         else diversify_loop seenCases' diversified' results maxResults)"

definition diversifyResults :: "SearchResult list \<Rightarrow> nat \<Rightarrow> SearchResult list" where
  "diversifyResults results maxResults = diversify_loop Map.empty [] results maxResults"

text \<open>
  The walk as the specification words it: go through the list in order and emit a
  candidate only if fewer than \<open>m\<close> candidates of its parent document have been emitted
  so far. \<open>cnt\<close> counts the emitted candidates per parent.
\<close>

fun cap_walk :: "nat \<Rightarrow> (int \<Rightarrow> nat) \<Rightarrow> SearchResult list \<Rightarrow> SearchResult list" where
  "cap_walk m cnt [] = []"
| "cap_walk m cnt (r # rs) =
     (if cnt (case_id r) < m
      then r # cap_walk m (cnt(case_id r := cnt (case_id r) + 1)) rs
      else cap_walk m cnt rs)"

definition per_parent :: "int \<Rightarrow> SearchResult list \<Rightarrow> nat" where
  "per_parent c rs = length (filter (\<lambda>r. case_id r = c) rs)"

section \<open>Multi-query variant: query analysis\<close>

text \<open>
  The multi-query route is the source file \<^verbatim>\<open>part_003\<close>. Its function
  \<^verbatim>\<open>analyzeQuery\<close> asks a language model for sub-queries, keywords and concepts.
  The reply that the model reads is \<open>None\<close> when the call failed, the content holds no
  braces, or \<^verbatim>\<open>JSON.parse\<close> threw; otherwise it is the parsed object, each of
  whose fields may be missing; fields of another type than the declared one are not
  modelled. The field \<^verbatim>\<open>queryType\<close> is a string, one of
  \<^verbatim>\<open>simple\<close>, \<^verbatim>\<open>complex\<close> and \<^verbatim>\<open>factual\<close> by its declared type. The
  field \<^verbatim>\<open>keywords\<close> is called \<open>keywords'\<close>, the plain name being reserved.
\<close>

record QueryAnalysis =
  originalQuery :: string
  subQueries :: "string list"
  keywords' :: "string list"
  legalConcepts :: "string list"
  queryType :: string

record parsed_analysis =
  parsed_subQueries :: "string list option"
  parsed_keywords :: "string list option"
  parsed_legalConcepts :: "string list option"
  parsed_queryType :: "string option"

definition legal_vocabulary :: "string list" where
  "legal_vocabulary =
     [''negligence'', ''liability'', ''damages'', ''breach'', ''duty'', ''care'',
      ''defendant'', ''plaintiff'', ''injury'', ''compensation'', ''contract'', ''tort'',
      ''defense'']"

text \<open>
  The fallback, the code after the \<^verbatim>\<open>try\<close> block:
  \<^verbatim>\<open>
  const words = query.toLowerCase().split(/\s+/)
  const legalTerms = words.filter(w => [...].includes(w))
  return {
      originalQuery: query,
      subQueries: [query],
      keywords: words.filter(w => w.length > 4).slice(0, 5),
      legalConcepts: legalTerms,
      queryType: query.split(' ').length > 8 ? 'complex' : 'simple'
  }
  \<close>
\<close>

definition fallback_analysis :: "string \<Rightarrow> QueryAnalysis" where
  "fallback_analysis query =
     (let words = split_ws (toLowerCase query);
          legalTerms = filter (\<lambda>w. w \<in> set legal_vocabulary) words
      in \<lparr> originalQuery = query,
           subQueries = [query],
           keywords' = take 5 (filter (\<lambda>w. length w > 4) words),
           legalConcepts = legalTerms,
           queryType = (if length (split_on (CHR '' '') query) > 8
                        then ''complex'' else ''simple'') \<rparr>)"

definition or_else :: "'a option \<Rightarrow> 'a \<Rightarrow> 'a" where
  "or_else v d = (case v of None \<Rightarrow> d | Some x \<Rightarrow> x)"

definition analyzeQuery :: "string \<Rightarrow> parsed_analysis option \<Rightarrow> QueryAnalysis" where
  "analyzeQuery query reply =
     (case reply of
        Some parsed \<Rightarrow>
          \<lparr> originalQuery = query,
            subQueries = or_else (parsed_subQueries parsed) [],
            keywords' = or_else (parsed_keywords parsed) [],
            legalConcepts = or_else (parsed_legalConcepts parsed) [],
            queryType = (case parsed_queryType parsed of
                           None \<Rightarrow> ''complex''
                         | Some t \<Rightarrow> if t = [] then ''complex'' else t) \<rparr>
      | None \<Rightarrow> fallback_analysis query)"

text \<open>
  The fallback keywords as the specification words them: the words of the query longer
  than four characters, minus stopwords, at most five. The analyzer has no stopword
  list of its own; \<open>stop\<close> is any list, for instance the one of the rerank variant.
\<close>

definition spec_fallback_keywords :: "string list \<Rightarrow> string \<Rightarrow> string list" where
  "spec_fallback_keywords stop query =
     take 5 (filter (\<lambda>w. length w > 4 \<and> w \<notin> set stop) (split_ws (toLowerCase query)))"

text \<open>The word count of a query: its non-empty pieces between runs of white space.\<close>

definition word_count :: "string \<Rightarrow> nat" where
  "word_count query = length (filter (\<lambda>w. w \<noteq> []) (split_ws query))"

section \<open>Multi-query variant: fusion\<close>

text \<open>
  The environment of the route: \<open>vector_search q t\<close> is the row list of the vector
  store for the query text \<open>q\<close> at threshold \<open>t\<close>, \<open>None\<close> when the embedding or the
  search failed; \<open>keyword_search ks c\<close> is the row list of the text search for the
  terms \<open>ks\<close> and court \<open>c\<close>, \<open>None\<close> on failure; \<open>analysis_reply\<close> is what
  \<^verbatim>\<open>analyzeQuery\<close> reads and \<open>answer_reply\<close> the content of the final completion.
\<close>

record multi_env =
  vector_search :: "string \<Rightarrow> real \<Rightarrow> SearchResult list option"
  keyword_search :: "string list \<Rightarrow> string option \<Rightarrow> SearchResult list option"
  analysis_reply :: "parsed_analysis option"
  answer_reply :: "string option"

text \<open>
  \<^verbatim>\<open>if (court && court !== 'all') results = results.filter(r => r.court === court)\<close>
\<close>

definition court_filter :: "string option \<Rightarrow> SearchResult list \<Rightarrow> SearchResult list" where
  "court_filter crt rows =
     (case crt of
        None \<Rightarrow> rows
      | Some c \<Rightarrow> if c \<noteq> [] \<and> c \<noteq> ''all'' then filter (\<lambda>r. court r = c) rows else rows)"

definition semanticSearch ::
  "multi_env \<Rightarrow> string \<Rightarrow> string option \<Rightarrow> real \<Rightarrow> SearchResult list"
where
  "semanticSearch env query crt threshold =
     (case vector_search env query threshold of
        None \<Rightarrow> []
      | Some rows \<Rightarrow> court_filter crt rows)"

definition keywordSearch ::
  "multi_env \<Rightarrow> string list \<Rightarrow> string option \<Rightarrow> SearchResult list"
where
  "keywordSearch env kws crt =
     (if length kws = 0 then []
      else (case keyword_search env (take 4 kws) crt of
              None \<Rightarrow> []
            | Some rows \<Rightarrow> map (\<lambda>r. r\<lparr>similarity := 0.45\<rparr>) rows))"

text \<open>
  The merge of one retrieved row, for a sub-query (\<open>tag\<close> the sub-query, \<open>factor\<close>
  1.15) and for the keyword search (\<open>tag\<close> \<^verbatim>\<open>keyword\<close>, \<open>factor\<close> 1.1):
  \<^verbatim>\<open>
  const existing = allResults.find(r => r.id === result.id)
  if (existing) {
      existing.matchedQueries?.push(subQuery)
      existing.similarity = Math.min(1, existing.similarity * 1.15)
  } else {
      allResults.push({ ...result, matchedQueries: [subQuery] })
  }
  \<close>
\<close>

definition reinforce :: "string \<Rightarrow> real \<Rightarrow> SearchResult \<Rightarrow> SearchResult" where
  "reinforce tag factor existing =
     existing\<lparr>matchedQueries := map_option (\<lambda>m. m @ [tag]) (matchedQueries existing),
              similarity := min 1 (similarity existing * factor)\<rparr>"

definition merge_result ::
  "string \<Rightarrow> real \<Rightarrow> SearchResult list \<Rightarrow> SearchResult \<Rightarrow> SearchResult list"
where
  "merge_result tag factor allResults result =
     (case find (\<lambda>r. id' r = id' result) allResults of
        Some existing \<Rightarrow>
          update_first (\<lambda>r. id' r = id' result) (reinforce tag factor) allResults
      | None \<Rightarrow> allResults @ [result\<lparr>matchedQueries := Some [tag]\<rparr>])"

definition main_step :: "multi_env \<Rightarrow> string \<Rightarrow> string option \<Rightarrow> SearchResult list" where
  "main_step env query crt =
     map (\<lambda>r. r\<lparr>matchedQueries := Some [''main'']\<rparr>) (semanticSearch env query crt 0.40)"

definition subquery_step ::
  "multi_env \<Rightarrow> string option \<Rightarrow> string list \<Rightarrow> SearchResult list \<Rightarrow> SearchResult list"
where
  "subquery_step env crt subs allResults =
     fold (\<lambda>subQuery acc.
             fold (\<lambda>result acc'. merge_result subQuery 1.15 acc' result)
               (semanticSearch env subQuery crt 0.45) acc)
       subs allResults"

definition keyword_step_mq ::
  "multi_env \<Rightarrow> string option \<Rightarrow> string list \<Rightarrow> SearchResult list \<Rightarrow> SearchResult list"
where
  "keyword_step_mq env crt kws allResults =
     (if length kws > 0
      then fold (\<lambda>result acc. merge_result ''keyword'' 1.1 acc result)
             (keywordSearch env kws crt) allResults
      else allResults)"

text \<open>The candidates after steps 2 and 3, before the final boost.\<close>

definition merged_mq :: "multi_env \<Rightarrow> string \<Rightarrow> string option \<Rightarrow> SearchResult list" where
  "merged_mq env query crt =
     (let queryAnalysis = analyzeQuery query (analysis_reply env)
      in keyword_step_mq env crt (keywords' queryAnalysis)
           (subquery_step env crt (subQueries queryAnalysis) (main_step env query crt)))"

text \<open>
  Step 4:
  \<^verbatim>\<open>
  allResults = allResults.map(r => ({
      ...r,
      similarity: r.similarity * (1 + (r.matchedQueries?.length || 1) * 0.05)
  }))
  allResults.sort((a, b) => b.similarity - a.similarity)
  const finalResults = diversifyResults(allResults, 10)
  \<close>
\<close>

definition matched_count :: "SearchResult \<Rightarrow> nat" where
  "matched_count r =
     (case matchedQueries r of
        None \<Rightarrow> 1
      | Some m \<Rightarrow> if length m = 0 then 1 else length m)"

definition multi_match_boost :: "SearchResult \<Rightarrow> SearchResult" where
  "multi_match_boost r = r\<lparr>similarity := similarity r * (1 + real (matched_count r) * 0.05)\<rparr>"

definition finalResults_mq :: "multi_env \<Rightarrow> string \<Rightarrow> string option \<Rightarrow> SearchResult list" where
  "finalResults_mq env query crt =
     diversifyResults
       (sort_by_similarity (map multi_match_boost (merged_mq env query crt))) 10"

text \<open>\<^verbatim>\<open>xs.join(sep)\<close> on strings.\<close>

fun join :: "string \<Rightarrow> string list \<Rightarrow> string" where
  "join sep [] = []"
| "join sep [x] = x"
| "join sep (x # y # ys) = x @ sep @ join sep (y # ys)"

definition generateLegalAnalysis :: "string option \<Rightarrow> string" where
  "generateLegalAnalysis reply =
     (case reply of
        None \<Rightarrow> ''Unable to generate analysis. Please review the case excerpts directly.''
      | Some content \<Rightarrow> if content = [] then ''Analysis generation failed.'' else content)"

text \<open>
  The guidance text of the route, a template literal over the query and the detected
  concepts. The two arrows of the source text (U+2192, outside the code units of this
  model) are written \<^verbatim>\<open>->\<close>.
\<close>

definition generateNoResultsGuidance :: "string \<Rightarrow> QueryAnalysis \<Rightarrow> string" where
  \<open>generateNoResultsGuidance query analysis =
     join [CHR 0x0A]
       [''## No Directly Relevant Cases Found'',
        [],
        ''Your query: "'' @ query @ ''"'',
        [],
        ''### Suggestions:'',
        ''1. **Try broader terms**: Instead of specific fact patterns, search for legal concepts like:'',
        ''   - "liability defense"'',
        ''   - "personal injury damages"'',
        ''   - "contributory negligence"'',
        [],
        ''2. **Break down your query**: '',
        ''   - Search: "defendant escapes liability"'',
        ''   - Then: "skull fracture personal injury"'',
        [],
        ''3. **Check your terminology**: Hong Kong courts may use different terms:'',
        ''   - "no liability" -> "defense succeeded"'',
        ''   - "get out of" -> "avoid liability" or "establish defense"'',
        [],
        (if length (legalConcepts analysis) > 0
         then join [CHR 0x0A]
                [[],
                 ''4. **Related concepts detected**: '' @ join '', '' (legalConcepts analysis),
                 ''   Try searching these terms individually.'']
         else []),
        [],
        ''### Database Coverage'',
        ''The current database contains cases from HKCA and HKCFI. If you need cases from specific courts or time periods, please let us know.'']\<close>

record body_mq = search_body +
  body_queryAnalysis :: QueryAnalysis

definition POST_mq :: "multi_env \<Rightarrow> request \<Rightarrow> body_mq http_response" where
  "POST_mq env req =
     (case req of
        Malformed \<Rightarrow> ErrorResponse 500 ''Search failed. Please try again.''
      | Request q crt \<Rightarrow>
          (case q of
             None \<Rightarrow> ErrorResponse 400 ''Query is required''
           | Some query \<Rightarrow>
               if query = [] then ErrorResponse 400 ''Query is required''
               else
                 let queryAnalysis = analyzeQuery query (analysis_reply env);
                     finalResults = finalResults_mq env query crt;
                     aiAnswer = (if length finalResults > 0
                                 then generateLegalAnalysis (answer_reply env)
                                 else generateNoResultsGuidance query queryAnalysis)
                 in OkResponse
                      \<lparr> body_query = query, body_results = finalResults,
                        body_aiAnswer = Some aiAnswer,
                        body_queryAnalysis = queryAnalysis \<rparr>))"

section \<open>Basic variant\<close>

text \<open>
  The route of the source file \<^verbatim>\<open>part_002\<close>, with one embedding call and one
  vector search. A call of this route either
  throws (also when its body has not the expected shape), answers with a status that is
  not OK, or answers OK with a body. The keyword fallback of this route reads the body
  without testing the status: \<open>basic_keyword\<close> is the row list when the body is one,
  and \<open>None\<close> when the call throws or the body is no list.
\<close>

datatype 'a fetched = Threw | NotOk | Ok 'a

record basic_env =
  basic_embedding :: "unit fetched"
  basic_search :: "SearchResult list fetched"
  basic_keyword :: "SearchResult list option"
  basic_answer :: "string option"

definition generateAIAnswer :: "string option \<Rightarrow> string option" where
  "generateAIAnswer reply =
     (case reply of
        None \<Rightarrow> None
      | Some content \<Rightarrow> if content = [] then None else Some content)"

definition keywordSearch_basic :: "basic_env \<Rightarrow> string \<Rightarrow> search_body http_response" where
  "keywordSearch_basic env query =
     (case basic_keyword env of
        None \<Rightarrow> ErrorResponse 500 ''Internal server error''
      | Some rows \<Rightarrow>
          OkResponse
            \<lparr> body_query = query,
              body_results = map (\<lambda>r. r\<lparr>similarity := 0.5\<rparr>) rows,
              body_aiAnswer = None \<rparr>)"

text \<open>
  \<^verbatim>\<open>
  if (!embeddingResponse.ok) { return await keywordSearch(query, startTime) }
  ...
  if (!searchResponse.ok) {
      return NextResponse.json({ error: 'Search failed' }, { status: 500 })
  }
  const results = await searchResponse.json()
  let aiAnswer = null
  if (results.length > 0) { aiAnswer = await generateAIAnswer(query, results) }
  return NextResponse.json({ query, results, aiAnswer, timeTaken })
  \<close>
  Every exception ends in the handler of the route, with status 500.
\<close>

definition POST_basic :: "basic_env \<Rightarrow> request \<Rightarrow> search_body http_response" where
  "POST_basic env req =
     (case req of
        Malformed \<Rightarrow> ErrorResponse 500 ''Internal server error''
      | Request q crt \<Rightarrow>
          (case q of
             None \<Rightarrow> ErrorResponse 400 ''Query is required''
           | Some query \<Rightarrow>
               if query = [] then ErrorResponse 400 ''Query is required''
               else
                 (case basic_embedding env of
                    Threw \<Rightarrow> ErrorResponse 500 ''Internal server error''
                  | NotOk \<Rightarrow> keywordSearch_basic env query
                  | Ok u \<Rightarrow>
                      (case basic_search env of
                         Threw \<Rightarrow> ErrorResponse 500 ''Internal server error''
                       | NotOk \<Rightarrow> ErrorResponse 500 ''Search failed''
                       | Ok rows \<Rightarrow>
                           OkResponse
                             \<lparr> body_query = query, body_results = rows,
                               body_aiAnswer = (if length rows > 0
                                                then generateAIAnswer (basic_answer env)
                                                else None) \<rparr>))))"

section \<open>Fallback variant\<close>

text \<open>
  The route of the source file \<^verbatim>\<open>src/app/api/search/route.ts\<close>: a semantic search,
  and a keyword search only when the semantic search gave nothing. The embedding call is
  wrapped in a \<^verbatim>\<open>try\<close> block of its own, the two searches are not: a search that
  throws ends in the handler of the route, a search that answers with a status that is
  not OK leaves the results as they are.
  \<^verbatim>\<open>
  let results: any[] = []
  if (queryEmbedding && queryEmbedding.length === 384) {
      const searchResponse = await fetch(...)
      if (searchResponse.ok) { results = await searchResponse.json() }
  }
  if (results.length === 0) {
      const keywords = query.split(' ').filter((w: string) => w.length > 3).slice(0, 3)
      if (keywords.length > 0) {
          const fallbackResponse = await fetch(url, ...)
          if (fallbackResponse.ok) {
              const fallbackResults = await fallbackResponse.json()
              results = fallbackResults.map((r: any) => ({ ...r, similarity: 0.5 }))
          }
      }
  }
  let aiAnswer: string | null = null
  if (results.length > 0) { aiAnswer = await generateAIAnswer(query, results) }
  \<close>
  In \<open>semantic_fb\<close> and \<open>keyword_fb\<close> the value \<open>None\<close> stands for the exception.
\<close>

record fallback_env =
  fb_embedding_ok :: bool
  fb_search :: "SearchResult list fetched"
  fb_keyword :: "string list \<Rightarrow> SearchResult list fetched"
  fb_answer :: "string option"

definition semantic_fb :: "fallback_env \<Rightarrow> SearchResult list option" where
  "semantic_fb env =
     (if fb_embedding_ok env
      then (case fb_search env of
              Threw \<Rightarrow> None
            | NotOk \<Rightarrow> Some []
            | Ok rows \<Rightarrow> Some rows)
      else Some [])"

definition keyword_fb :: "fallback_env \<Rightarrow> string \<Rightarrow> SearchResult list option" where
  "keyword_fb env query =
     (let kws = take 3 (filter (\<lambda>w. length w > 3) (split_on (CHR '' '') query))
      in if length kws > 0
         then (case fb_keyword env kws of
                 Threw \<Rightarrow> None
               | NotOk \<Rightarrow> Some []
               | Ok rows \<Rightarrow> Some (map (\<lambda>r. r\<lparr>similarity := 0.5\<rparr>) rows))
         else Some [])"

definition respond_fb ::
  "fallback_env \<Rightarrow> string \<Rightarrow> SearchResult list \<Rightarrow> search_body http_response"
where
  "respond_fb env query rows =
     OkResponse
       \<lparr> body_query = query, body_results = rows,
         body_aiAnswer = (if length rows > 0 then generateAIAnswer (fb_answer env) else None) \<rparr>"

definition POST_fb :: "fallback_env \<Rightarrow> request \<Rightarrow> search_body http_response" where
  "POST_fb env req =
     (case req of
        Malformed \<Rightarrow> ErrorResponse 500 ''Search failed. Please try again.''
      | Request q crt \<Rightarrow>
          (case q of
             None \<Rightarrow> ErrorResponse 400 ''Query is required''
           | Some query \<Rightarrow>
               if query = [] then ErrorResponse 400 ''Query is required''
               else
                 (case semantic_fb env of
                    None \<Rightarrow> ErrorResponse 500 ''Search failed. Please try again.''
                  | Some rows \<Rightarrow>
                      if length rows = 0
                      then (case keyword_fb env query of
                              None \<Rightarrow> ErrorResponse 500 ''Search failed. Please try again.''
                            | Some rows' \<Rightarrow> respond_fb env query rows')
                      else respond_fb env query rows)))"

section \<open>Predicates of the statements\<close>

text \<open>The count that the map \<open>seenCases\<close> holds for a parent document.\<close>

definition cnt_of :: "(int \<rightharpoonup> nat) \<Rightarrow> int \<Rightarrow> nat" where
  "cnt_of seen c = (case seen c of None \<Rightarrow> 0 | Some n \<Rightarrow> n)"



text \<open>
  Every retrieval signal of a route fails or returns no row: the semantic step yields
  nothing and every keyword search that the route issues fails or is empty.
\<close>

definition signals_empty :: "'a retrieval_env_scheme \<Rightarrow> string list \<Rightarrow> bool" where
  "signals_empty env kws =
     (semantic_step env = []
      \<and> (\<forall>kw \<in> set kws. keyword_rows env kw = None \<or> keyword_rows env kw = Some []))"

definition signals_empty_mq :: "multi_env \<Rightarrow> bool" where
  "signals_empty_mq env =
     ((\<forall>q t. vector_search env q t = None \<or> vector_search env q t = Some [])
      \<and> (\<forall>ks c. keyword_search env ks c = None \<or> keyword_search env ks c = Some []))"

section \<open>Inputs of the worked examples\<close>

text \<open>
  Five passages of one document and one passage of another, in descending order of
  similarity.
\<close>

definition five_and_one :: "SearchResult list" where
  "five_and_one =
     [mk_result 1 7 [] 0.9, mk_result 2 7 [] 0.8, mk_result 3 7 [] 0.7,
      mk_result 4 7 [] 0.6, mk_result 5 7 [] 0.5, mk_result 6 8 [] 0.4]"

text \<open>
  Sixteen passages in descending order of similarity, four of each of the documents 0
  to 3, and a store that returns them for the main query.
\<close>

definition crowd :: "SearchResult list" where
  "crowd = map (\<lambda>n. mk_result (int n) (int (n div 4)) [] (1 - real n / 100)) [0..<16]"

definition crowd_env :: multi_env where
  "crowd_env =
     \<lparr> vector_search = (\<lambda>q t. if t = 0.40 then Some crowd else None),
       keyword_search = (\<lambda>ks c. None), analysis_reply = None, answer_reply = None \<rparr>"


text \<open>Three candidates of three documents, and a route whose only hit is scored 1.\<close>

definition three_rows :: "SearchResult list" where
  "three_rows =
     [mk_result 1 4 ''duty of care'' 0.8, mk_result 2 5 ''shipping'' 0.7,
      mk_result 3 6 ''negligence'' 0.6]"

definition low_env :: rerank_env where
  "low_env =
     \<lparr> embedding_ok = True, vector_rows = Some [mk_result 1 4 ''a shipping dispute'' 0.8],
       keyword_rows = (\<lambda>kw. None), chat_reply = None, rerank_reply = Some ''[1]'' \<rparr>"

text \<open>
  Two routes whose scoring reply holds no array: one with three semantic hits, and one
  with fifteen semantic hits of similarity 0.39 down to 0.25 followed by one keyword hit,
  which the route scores 0.5.
\<close>

definition unscored_env :: rerank_env where
  "unscored_env =
     \<lparr> embedding_ok = True, vector_rows = Some (rev three_rows),
       keyword_rows = (\<lambda>kw. None), chat_reply = None,
       rerank_reply = Some ''I cannot score these.'' \<rparr>"

definition crowded_env :: rerank_env where
  "crowded_env =
     \<lparr> embedding_ok = True,
       vector_rows = Some (map (\<lambda>n. mk_result (int n) (int n) ''a contract dispute''
                                      (0.4 - real n / 100)) [1..<16]),
       keyword_rows = (\<lambda>kw. if kw = ''negligence''
                             then Some [mk_result 16 16 ''negligence'' 0] else None),
       chat_reply = None,
       rerank_reply = Some ''I cannot score these.'' \<rparr>"





text \<open>
  A vector store that returns one row twice for the main query and fails for every
  sub-query.
\<close>

definition twice_env :: multi_env where
  "twice_env =
     \<lparr> vector_search = (\<lambda>q t. if t = 0.40
          then Some [mk_result 1 4 ''tort of negligence'' 0.8,
                     mk_result 1 4 ''tort of negligence'' 0.8]
          else None),
       keyword_search = (\<lambda>ks c. None), analysis_reply = None, answer_reply = None \<rparr>"

text \<open>
  Every retrieval call is down, in the keyword-boost, the rerank and the multi-query
  variant; both searches of the fallback variant answer with an error status; and, for
  the basic variant, a vector store that answers with an error status and one that
  answers with no row.
\<close>

definition dead_env :: retrieval_env where
  "dead_env =
     \<lparr> embedding_ok = False, vector_rows = None, keyword_rows = (\<lambda>kw. None),
       chat_reply = None \<rparr>"

definition dead_env_rr :: rerank_env where
  "dead_env_rr =
     \<lparr> embedding_ok = False, vector_rows = None, keyword_rows = (\<lambda>kw. None),
       chat_reply = None, rerank_reply = None \<rparr>"

definition dead_env_mq :: multi_env where
  "dead_env_mq =
     \<lparr> vector_search = (\<lambda>q t. None), keyword_search = (\<lambda>ks c. None),
       analysis_reply = None, answer_reply = None \<rparr>"

definition fb_down :: fallback_env where
  "fb_down =
     \<lparr> fb_embedding_ok = True, fb_search = NotOk, fb_keyword = (\<lambda>ks. NotOk),
       fb_answer = None \<rparr>"

definition store_down :: basic_env where
  "store_down =
     \<lparr> basic_embedding = Ok (), basic_search = NotOk, basic_keyword = None,
       basic_answer = None \<rparr>"

definition store_empty :: basic_env where
  "store_empty =
     \<lparr> basic_embedding = Ok (), basic_search = Ok [], basic_keyword = None,
       basic_answer = None \<rparr>"

text \<open>
  The embedding service answers and the vector store is down, while the text search
  finds one passage: in the keyword-boost, the rerank and the multi-query variant.
\<close>

definition vector_down_env :: retrieval_env where
  "vector_down_env =
     \<lparr> embedding_ok = True, vector_rows = None,
       keyword_rows = (\<lambda>kw. if kw = ''negligence''
                             then Some [mk_result 5 9 ''contributory negligence'' 0] else None),
       chat_reply = None \<rparr>"

definition vector_down_env_rr :: rerank_env where
  "vector_down_env_rr =
     \<lparr> embedding_ok = True, vector_rows = None,
       keyword_rows = (\<lambda>kw. if kw = ''negligence''
                             then Some [mk_result 5 9 ''contributory negligence'' 0] else None),
       chat_reply = None, rerank_reply = None \<rparr>"

definition vector_down_env_mq :: multi_env where
  "vector_down_env_mq =
     \<lparr> vector_search = (\<lambda>q t. None),
       keyword_search = (\<lambda>ks c. Some [mk_result 5 9 ''contributory negligence'' 0]),
       analysis_reply = None, answer_reply = None \<rparr>"

chapter \<open>Properties of the search routes\<close>

section \<open>Strings\<close>

lemmas string_eval =
  toLowerCase_def lower_char_def is_upper_def char_of_eq_iff is_space_def

text \<open>The pieces of a split.\<close>

lemma split_ws_nonempty: "split_ws s \<noteq> []"
  by (induction s rule: split_ws.induct) (auto split: list.splits)

lemma split_ws_no_space_all: "\<forall>w \<in> set (split_ws s). \<forall>c \<in> set w. \<not> is_space c"
proof (induction s rule: split_ws.induct)
  case 1
  then show ?case by simp
next
  case (2 c cs)
  show ?case
  proof (cases "is_space c")
    case True
    with 2 show ?thesis by simp
  next
    case False
    with 2 have IH: "\<forall>w \<in> set (split_ws cs). \<forall>c \<in> set w. \<not> is_space c" by simp
    from split_ws_nonempty obtain w ws where sp: "split_ws cs = w # ws"
      by (cases "split_ws cs") auto
    with False have "split_ws (c # cs) = (c # w) # ws" by simp
    with IH sp False show ?thesis by auto
  qed
qed

lemma split_ws_no_space: "w \<in> set (split_ws s) \<Longrightarrow> c \<in> set w \<Longrightarrow> \<not> is_space c"
  using split_ws_no_space_all by blast

lemma split_on_nonempty: "split_on d s \<noteq> []"
  by (induction s) (auto split: list.splits)

lemma length_split_on: "length (split_on d s) = Suc (length (filter (\<lambda>c. c = d) s))"
  by (induction s) (auto split: list.splits simp: split_on_nonempty)

text \<open>Lower-casing is idempotent, and the words of a lower-cased string are lower-case.\<close>

lemma lower_char_not_upper: "\<not> is_upper (lower_char c)"
proof (cases "is_upper c")
  case False
  then show ?thesis by (simp add: lower_char_def)
next
  case True
  let ?n = "of_char c :: nat"
  from True have r: "(65 \<le> ?n \<and> ?n \<le> 90) \<or> (192 \<le> ?n \<and> ?n \<le> 222 \<and> ?n \<noteq> 215)"
    by (simp add: is_upper_def Let_def)
  then have "?n + 32 < 256" by auto
  then have "of_char (char_of (?n + 32)) = ?n + 32"
    by (simp add: of_char_of take_bit_eq_mod)
  with r True show ?thesis
    by (auto simp add: lower_char_def is_upper_def Let_def)
qed

lemma lower_char_idem: "lower_char (lower_char c) = lower_char c"
  using lower_char_not_upper [of c] by (simp add: lower_char_def [of "lower_char c"])

lemma toLowerCase_idem: "toLowerCase (toLowerCase s) = toLowerCase s"
  by (simp add: toLowerCase_def lower_char_idem)

lemma split_ws_lower_all:
  "\<forall>c \<in> set s. \<not> is_upper c \<Longrightarrow> \<forall>w \<in> set (split_ws s). \<forall>c \<in> set w. \<not> is_upper c"
proof (induction s rule: split_ws.induct)
  case 1
  then show ?case by simp
next
  case (2 c cs)
  show ?case
  proof (cases "is_space c")
    case True
    have "set (dropWhile is_space cs) \<subseteq> set cs" by (rule set_dropWhileD [THEN subsetI])
    with 2 True show ?thesis by auto
  next
    case False
    with 2 have IH: "\<forall>w \<in> set (split_ws cs). \<forall>c \<in> set w. \<not> is_upper c" by simp
    from split_ws_nonempty obtain w ws where sp: "split_ws cs = w # ws"
      by (cases "split_ws cs") auto
    with False have "split_ws (c # cs) = (c # w) # ws" by simp
    with IH sp False 2(3) show ?thesis by auto
  qed
qed

lemma not_upper_fixed: "\<forall>c \<in> set w. \<not> is_upper c \<Longrightarrow> toLowerCase w = w"
  by (induction w) (auto simp: toLowerCase_def lower_char_def)

lemma extract_keywords_lower:
  assumes "kw \<in> set (extract_keywords stop query)"
  shows "toLowerCase kw = kw"
proof -
  have "\<forall>c \<in> set (toLowerCase query). \<not> is_upper c"
    by (auto simp: toLowerCase_def lower_char_not_upper)
  then have "\<forall>w \<in> set (split_ws (toLowerCase query)). \<forall>c \<in> set w. \<not> is_upper c"
    by (rule split_ws_lower_all)
  with assms show ?thesis
    by (auto simp: extract_keywords_def intro: not_upper_fixed)
qed

section \<open>Keyword-boost variant\<close>

subsection \<open>Facts about the shared list operations\<close>

lemma includes_str_sublist: "includes_str t kw \<longleftrightarrow> sublist kw t"
  by (induction t) (auto simp: sublist_Cons_right)

lemma dedup_filter_notin: "r \<in> set (dedup_filter S ys) \<Longrightarrow> id' r \<notin> S"
  by (induction ys arbitrary: S) (auto split: if_splits)


lemma dedup_filter_ids: "id' ` set (dedup_filter S ys) = id' ` set ys - S"
  by (induction ys arbitrary: S) auto

lemma dedup_filter_distinct: "distinct (map id' (dedup_filter S ys))"
  by (induction ys arbitrary: S) (auto dest: dedup_filter_notin)



lemma deduplicate_distinct: "distinct (map id' (deduplicate rs))"
  by (simp add: deduplicate_def dedup_filter_distinct)


lemma sort_by_similarity_sorted:
  "sorted_wrt (\<lambda>a b. similarity a \<ge> similarity b) (sort_by_similarity xs)"
proof -
  have "sorted (map (\<lambda>r. - similarity r) (sort_key (\<lambda>r. - similarity r) xs))"
    by (rule sorted_sort_key)
  then show ?thesis
    by (simp add: sort_by_similarity_def sorted_map)
qed


lemma mset_sort_by_similarity: "mset (sort_by_similarity xs) = mset xs"
  by (simp add: sort_by_similarity_def)

lemma subseq_take_self: "subseq (take k xs) xs"
  by (simp add: prefix_imp_subseq take_is_prefix)

lemma sorted_wrt_subseq_down: "subseq xs ys \<Longrightarrow> sorted_wrt P ys \<Longrightarrow> sorted_wrt P xs"
  by (induction rule: list_emb.induct) (auto dest: list_emb_set)

subsection \<open>The keyword-presence boost\<close>


lemma boost_result_id: "id' (boost_result kws r) = id' r"
  by (simp add: boost_result_def Let_def)

text \<open>
  Claim C5, as amended. The boost step sets the score of every candidate to
  \<open>min 0.99 (score * (1 + 0.15 * n))\<close>, where \<open>n\<close> is the number of entries of the
  keyword list that occur as substrings of the lower-cased text, and records \<open>n\<close> in
  \<open>keywordMatches\<close>. With \<open>n = 0\<close> the factor is 1 but the cap still applies: the score
  is kept when it is at most 0.99 and becomes 0.99 otherwise. The keywords that the route
  extracts from the query are lower-case, so the test is a comparison of the lower-cased
  keyword with the lower-cased text.
\<close>

theorem keyword_boost_rule:
  "similarity (boost_result kws r)
     = min 0.99 (similarity r * (1 + 0.15 * real (count_keyword_matches kws r)))
   \<and> keywordMatches (boost_result kws r) = Some (count_keyword_matches kws r)
   \<and> count_keyword_matches kws r
       = length (filter (\<lambda>kw. sublist kw (toLowerCase (chunk_text r))) kws)
   \<and> (count_keyword_matches kws r = 0 \<longrightarrow>
        similarity (boost_result kws r) = min 0.99 (similarity r))
   \<and> (count_keyword_matches kws r = 0 \<and> similarity r \<le> 0.99 \<longrightarrow>
        similarity (boost_result kws r) = similarity r)
   \<and> (\<forall>kw \<in> set (extract_keywords stop query).
        toLowerCase kw = kw
        \<and> (includes_str (toLowerCase (chunk_text r)) kw
             \<longleftrightarrow> sublist (toLowerCase kw) (toLowerCase (chunk_text r))))"
proof -
  let ?n = "count_keyword_matches kws r"
  have low: "toLowerCase kw = kw
        \<and> (includes_str (toLowerCase (chunk_text r)) kw
             \<longleftrightarrow> sublist (toLowerCase kw) (toLowerCase (chunk_text r)))"
    if "kw \<in> set (extract_keywords stop query)" for kw
    using extract_keywords_lower [OF that] by (simp add: includes_str_sublist)
  have boost: "(if ?n > 0 then 1 + real ?n * 0.15 else 1) = 1 + 0.15 * real ?n"
    by simp
  have sim: "similarity (boost_result kws r) = min 0.99 (similarity r * (1 + 0.15 * real ?n))"
    unfolding boost_result_def Let_def boost by simp
  have km: "keywordMatches (boost_result kws r) = Some ?n"
    by (simp add: boost_result_def Let_def)
  have cnt: "?n = length (filter (\<lambda>kw. sublist kw (toLowerCase (chunk_text r))) kws)"
    by (simp add: count_keyword_matches_def includes_str_sublist)
  have zero: "similarity (boost_result kws r) = min 0.99 (similarity r)" if "?n = 0"
    using that by (simp add: sim)
  from sim km cnt zero low show ?thesis by auto
qed

text \<open>
  Two runs: a text that holds both keywords, in other letter case, has its score 0.5
  multiplied by 1.3; a text that holds no keyword keeps its score 0.5.
\<close>

theorem keyword_boost_rule_witness:
  "similarity (boost_result [''duty'', ''care'']
       (mk_result 1 1 ''The Duty of CARE is owed'' 0.5)) = 0.65
   \<and> count_keyword_matches [''duty'', ''care''] (mk_result 2 1 ''Damages were awarded'' 0.5) = 0
   \<and> similarity (mk_result 2 1 ''Damages were awarded'' 0.5) \<le> 0.99
   \<and> similarity (boost_result [''duty'', ''care'']
       (mk_result 2 1 ''Damages were awarded'' 0.5)) = 0.5"
proof -
  have n2: "count_keyword_matches [''duty'', ''care'']
      (mk_result 1 1 ''The Duty of CARE is owed'' 0.5) = 2"
    by code_simp
  have n0: "count_keyword_matches [''duty'', ''care'']
      (mk_result 2 1 ''Damages were awarded'' 0.5) = 0"
    by code_simp
  have s: "similarity (mk_result 2 1 ''Damages were awarded'' 0.5) = 0.5"
    "similarity (mk_result 1 1 ''The Duty of CARE is owed'' 0.5) = 0.5"
    by (simp_all add: mk_result_def)
  have a: "similarity (boost_result [''duty'', ''care'']
       (mk_result 1 1 ''The Duty of CARE is owed'' 0.5)) = 0.65"
    using keyword_boost_rule [of "[''duty'', ''care'']"
        "mk_result 1 1 ''The Duty of CARE is owed'' 0.5"]
    unfolding n2 s by simp
  have b: "similarity (boost_result [''duty'', ''care'']
       (mk_result 2 1 ''Damages were awarded'' 0.5)) = 0.5"
    using keyword_boost_rule [of "[''duty'', ''care'']"
        "mk_result 2 1 ''Damages were awarded'' 0.5"]
    unfolding n0 s by simp
  from a b n0 s show ?thesis by simp
qed

text \<open>
  The claim as stated fails for a candidate without keyword match whose score exceeds
  0.99: a semantic hit of similarity 1 leaves the boost step with 0.99.
\<close>

theorem keyword_boost_unchanged_counterexample:
  "\<not> (\<forall>kws r. count_keyword_matches kws r = 0 \<longrightarrow>
         similarity (boost_result kws r) = similarity r)"
proof
  assume "\<forall>kws r. count_keyword_matches kws r = 0 \<longrightarrow>
        similarity (boost_result kws r) = similarity r"
  then have "count_keyword_matches [''negligence''] (mk_result 1 1 ''contract'' 1) = 0 \<longrightarrow>
     similarity (boost_result [''negligence''] (mk_result 1 1 ''contract'' 1))
       = similarity (mk_result 1 1 ''contract'' 1)" by blast
  then show False
    by (simp add: boost_result_def count_keyword_matches_def mk_result_def string_eval)
qed

subsection \<open>Sorting before deduplication\<close>



section \<open>Rerank variant\<close>

subsection \<open>Facts about the rerank stage\<close>

lemma parseScores_has_array: "parseScores content = Some scores \<Longrightarrow> has_score_array content"
  by (induction content) (auto simp: parseScores_def split: option.splits if_splits)

lemma no_array_parse_fails: "\<not> has_score_array content \<Longrightarrow> parseScores content = None"
  using parseScores_has_array by (cases "parseScores content") auto

lemma set_scored:
  "set (map (\<lambda>(i, r). apply_score scores i r) (enumerate 0 results))
     = {apply_score scores i (results ! i) | i. i < length results}"
  by (auto simp: in_set_enumerate_eq image_iff)

lemma relevance_apply_score: "relevance_or_5 (apply_score scores i r) = score_at scores i"
  by (simp add: relevance_or_5_def apply_score_def)

lemma id_apply_score: "id' (apply_score scores i r) = id' r"
  by (simp add: apply_score_def)

lemma rerank_parsed_eq:
  "parseScores content = Some scores \<Longrightarrow>
   rerankWithAI q results (Some content)
     = sort_key (\<lambda>r. - combined_score r)
         (filter (\<lambda>r. relevance_or_5 r \<ge> 4)
            (map (\<lambda>(i, r). apply_score scores i r) (enumerate 0 results)))"
  by (simp add: rerankWithAI_def Let_def)

lemma rerank_parsed_set:
  assumes "parseScores content = Some scores"
  shows "set (rerankWithAI q results (Some content))
     = {apply_score scores i (results ! i) | i. i < length results \<and> 4 \<le> score_at scores i}"
proof -
  have "set (rerankWithAI q results (Some content))
      = {r \<in> set (map (\<lambda>(i, r). apply_score scores i r) (enumerate 0 results)).
           relevance_or_5 r \<ge> 4}"
    unfolding rerank_parsed_eq [OF assms] by simp
  also have "\<dots> = {apply_score scores i (results ! i) | i.
      i < length results \<and> 4 \<le> score_at scores i}"
    unfolding set_scored by (auto simp: relevance_apply_score)
  finally show ?thesis .
qed

lemma rerank_parsed_empty:
  assumes "parseScores content = Some scores"
  shows "rerankWithAI q results (Some content) = []
     \<longleftrightarrow> (\<forall>i<length results. score_at scores i < 4)"
proof -
  have "rerankWithAI q results (Some content) = []
      \<longleftrightarrow> set (rerankWithAI q results (Some content)) = {}"
    by simp
  also have "\<dots> \<longleftrightarrow> (\<forall>i<length results. score_at scores i < 4)"
    unfolding rerank_parsed_set [OF assms] by (auto simp: not_le)
  finally show ?thesis .
qed

lemma rerank_fallback_eq:
  "reply = None \<or> (\<exists>content. reply = Some content \<and> parseScores content = None)
   \<Longrightarrow> rerankWithAI q results reply = sort_by_similarity results"
  by (auto simp: rerankWithAI_def)

text \<open>
  Claim C3, as amended. When the scores are read, the rerank stage returns exactly the
  scored candidates whose relevance score (5 where the array has no entry) is at least
  4, ordered by descending combined score. There is no fallback to the ranking before
  the stage: the result is empty exactly when every candidate scores below 4.
\<close>

theorem rerank_cutoff_without_fallback:
  assumes "parseScores content = Some scores"
  shows "set (rerankWithAI q results (Some content))
           = {apply_score scores i (results ! i) | i.
                i < length results \<and> 4 \<le> score_at scores i}
       \<and> (rerankWithAI q results (Some content) = []
            \<longleftrightarrow> (\<forall>i<length results. score_at scores i < 4))
       \<and> sorted_wrt (\<lambda>a b. combined_score a \<ge> combined_score b)
            (rerankWithAI q results (Some content))"
proof -
  have "sorted (map (\<lambda>r. - combined_score r) (rerankWithAI q results (Some content)))"
    unfolding rerank_parsed_eq [OF assms] by (rule sorted_sort_key)
  then have "sorted_wrt (\<lambda>a b. combined_score a \<ge> combined_score b)
      (rerankWithAI q results (Some content))"
    by (simp add: sorted_map)
  with rerank_parsed_set [OF assms] rerank_parsed_empty [OF assms] show ?thesis
    by blast
qed

text \<open>
  A run: the reply \<^verbatim>\<open>Scores: [9, 2, 6]\<close> for three candidates keeps the first and
  the third.
\<close>

theorem rerank_cutoff_without_fallback_witness:
  "parseScores ''Scores: [9, 2, 6]'' = Some [9, 2, 6]
   \<and> map id' (rerankWithAI ''duty'' three_rows (Some ''Scores: [9, 2, 6]'')) = [1, 3]
   \<and> rerankWithAI ''duty'' three_rows (Some ''Scores: [9, 2, 6]'') \<noteq> []"
proof -
  have p: "parseScores ''Scores: [9, 2, 6]'' = Some [9, 2, 6]"
    by code_simp
  have ids: "map id' (rerankWithAI ''duty'' three_rows (Some ''Scores: [9, 2, 6]'')) = [1, 3]"
    by code_simp
  have "\<not> (\<forall>i<length three_rows. score_at [9, 2, 6] i < 4)"
    by (auto simp: three_rows_def score_at_def intro: exI [of _ 0])
  with rerank_cutoff_without_fallback [OF p, of "''duty''" three_rows]
  have "rerankWithAI ''duty'' three_rows (Some ''Scores: [9, 2, 6]'') \<noteq> []"
    by blast
  with p ids show ?thesis by blast
qed

text \<open>
  The claim as stated fails where the model scores every candidate below 4: one semantic
  hit, scored 1, leaves the rerank stage and the route with no result at all.
\<close>

theorem rerank_empties_counterexample:
  "merged_rr low_env ''shipping'' \<noteq> []
   \<and> rerankWithAI ''shipping'' (take 15 (merged_rr low_env ''shipping''))
        (rerank_reply low_env) = []
   \<and> finalResults_rr low_env ''shipping'' = []"
proof -
  have m: "map id' (merged_rr low_env ''shipping'') = [1]"
    by code_simp
  have r: "rerankWithAI ''shipping'' (take 15 (merged_rr low_env ''shipping''))
        (rerank_reply low_env) = []"
    by code_simp
  have f: "finalResults_rr low_env ''shipping'' = []"
    by code_simp
  from m have "merged_rr low_env ''shipping'' \<noteq> []" by auto
  with r f show ?thesis by blast
qed

lemma mset_take_subset: "mset (take n xs) \<subseteq># mset xs"
proof -
  have "mset xs = mset (take n xs) + mset (drop n xs)"
    by (metis append_take_drop_id mset_append)
  then show ?thesis by simp
qed

lemma finalResults_rr_fallback:
  assumes "rerank_reply env = None
         \<or> (\<exists>content. rerank_reply env = Some content \<and> parseScores content = None)"
  shows "finalResults_rr env query = take 10 (sort_by_similarity (take 15 (merged_rr env query)))"
proof (cases "merged_rr env query = []")
  case True
  then show ?thesis
    by (simp add: finalResults_rr_def sort_by_similarity_def)
next
  case False
  with rerank_fallback_eq [OF assms] show ?thesis
    by (simp add: finalResults_rr_def)
qed

lemma length_sort_by_similarity: "length (sort_by_similarity xs) = length xs"
  by (simp add: sort_by_similarity_def)

text \<open>
  Claim C6, as amended. When the scoring call fails, or its reply holds no bracketed run
  of digits, commas and white space that is a JSON array of numbers, or the first such
  run does not parse, the rerank stage returns its input sorted by descending
  similarity: the same candidates, none dropped and none rescored. The input of the
  stage is the first fifteen of the deduplicated candidates, and the route returns the
  first ten of the output. So the route returns candidates of the merge, unchanged and in
  descending order of similarity, as many as there are but at most ten: all of them when
  there are at most ten, and otherwise the ten of highest similarity among the first
  fifteen.
\<close>

theorem rerank_skipped_on_parse_failure:
  assumes "reply = None
         \<or> (\<exists>content. reply = Some content
               \<and> (\<not> has_score_array content \<or> parseScores content = None))"
  shows "rerankWithAI q results reply = sort_by_similarity results
       \<and> mset (rerankWithAI q results reply) = mset results
       \<and> sorted_wrt (\<lambda>a b. similarity a \<ge> similarity b) (rerankWithAI q results reply)
       \<and> (rerank_reply env = reply \<longrightarrow>
            finalResults_rr env query
              = take 10 (sort_by_similarity (take 15 (merged_rr env query)))
          \<and> mset (finalResults_rr env query) \<subseteq># mset (merged_rr env query)
          \<and> length (finalResults_rr env query) = min 10 (length (merged_rr env query))
          \<and> sorted_wrt (\<lambda>a b. similarity a \<ge> similarity b) (finalResults_rr env query)
          \<and> (length (merged_rr env query) \<le> 10 \<longrightarrow>
               finalResults_rr env query = sort_by_similarity (merged_rr env query)
               \<and> mset (finalResults_rr env query) = mset (merged_rr env query))
          \<and> (10 < length (merged_rr env query) \<longrightarrow>
               mset (finalResults_rr env query) \<noteq> mset (merged_rr env query)))"
proof -
  from assms have un: "reply = None
      \<or> (\<exists>content. reply = Some content \<and> parseScores content = None)"
    using no_array_parse_fails by blast
  then have eq: "rerankWithAI q results reply = sort_by_similarity results"
    by (rule rerank_fallback_eq)
  have stage: "rerankWithAI q results reply = sort_by_similarity results
       \<and> mset (rerankWithAI q results reply) = mset results
       \<and> sorted_wrt (\<lambda>a b. similarity a \<ge> similarity b) (rerankWithAI q results reply)"
    by (simp add: eq mset_sort_by_similarity sort_by_similarity_sorted)
  have route: "finalResults_rr env query
              = take 10 (sort_by_similarity (take 15 (merged_rr env query)))
          \<and> mset (finalResults_rr env query) \<subseteq># mset (merged_rr env query)
          \<and> length (finalResults_rr env query) = min 10 (length (merged_rr env query))
          \<and> sorted_wrt (\<lambda>a b. similarity a \<ge> similarity b) (finalResults_rr env query)
          \<and> (length (merged_rr env query) \<le> 10 \<longrightarrow>
               finalResults_rr env query = sort_by_similarity (merged_rr env query)
               \<and> mset (finalResults_rr env query) = mset (merged_rr env query))
          \<and> (10 < length (merged_rr env query) \<longrightarrow>
               mset (finalResults_rr env query) \<noteq> mset (merged_rr env query))"
    if r: "rerank_reply env = reply"
  proof -
    let ?m = "merged_rr env query"
    from un r have "rerank_reply env = None
        \<or> (\<exists>content. rerank_reply env = Some content \<and> parseScores content = None)"
      by simp
    then have fin: "finalResults_rr env query = take 10 (sort_by_similarity (take 15 ?m))"
      by (rule finalResults_rr_fallback)
    have "mset (take 10 (sort_by_similarity (take 15 ?m)))
        \<subseteq># mset (sort_by_similarity (take 15 ?m))"
      by (rule mset_take_subset)
    also have "\<dots> = mset (take 15 ?m)"
      by (rule mset_sort_by_similarity)
    also have "\<dots> \<subseteq># mset ?m"
      by (rule mset_take_subset)
    finally have sub: "mset (finalResults_rr env query) \<subseteq># mset ?m"
      unfolding fin .
    have len: "length (finalResults_rr env query) = min 10 (length ?m)"
      unfolding fin by (simp add: length_sort_by_similarity)
    have srt: "sorted_wrt (\<lambda>a b. similarity a \<ge> similarity b) (finalResults_rr env query)"
      unfolding fin
      using subseq_take_self sort_by_similarity_sorted by (rule sorted_wrt_subseq_down)
    have small: "finalResults_rr env query = sort_by_similarity ?m
        \<and> mset (finalResults_rr env query) = mset ?m"
      if "length ?m \<le> 10"
      using that unfolding fin
      by (simp add: length_sort_by_similarity mset_sort_by_similarity)
    have large: "mset (finalResults_rr env query) \<noteq> mset ?m"
      if "10 < length ?m"
    proof
      assume "mset (finalResults_rr env query) = mset ?m"
      then have "length (finalResults_rr env query) = length ?m"
        by (rule mset_eq_length)
      with len that show False by simp
    qed
    from fin sub len srt small large show ?thesis by blast
  qed
  from stage route show ?thesis by blast
qed

text \<open>
  A run: the reply \<^verbatim>\<open>I cannot score these.\<close> holds no array. The stage returns
  three candidates in the order of their similarity, and a route with these three
  candidates returns all of them in that order.
\<close>

theorem rerank_skipped_on_parse_failure_witness:
  "\<not> has_score_array ''I cannot score these.''
   \<and> rerankWithAI ''duty'' (rev three_rows) (Some ''I cannot score these.'') = three_rows
   \<and> rerank_reply unscored_env = Some ''I cannot score these.''
   \<and> map id' (merged_rr unscored_env ''duty'') = [3, 2, 1]
   \<and> length (merged_rr unscored_env ''duty'') \<le> 10
   \<and> map id' (finalResults_rr unscored_env ''duty'') = [1, 2, 3]
   \<and> mset (finalResults_rr unscored_env ''duty'') = mset (merged_rr unscored_env ''duty'')"
proof -
  have h: "\<not> has_score_array ''I cannot score these.''"
    by code_simp
  have s: "sort_by_similarity (rev three_rows) = three_rows"
    by code_simp
  from h have pre: "Some ''I cannot score these.'' = None
      \<or> (\<exists>content. Some ''I cannot score these.'' = Some content
            \<and> (\<not> has_score_array content \<or> parseScores content = None))"
    by blast
  note th = rerank_skipped_on_parse_failure [OF pre, of "''duty''" "rev three_rows"
      unscored_env "''duty''"]
  from th have "rerankWithAI ''duty'' (rev three_rows) (Some ''I cannot score these.'')
      = sort_by_similarity (rev three_rows)"
    by blast
  then have a: "rerankWithAI ''duty'' (rev three_rows) (Some ''I cannot score these.'')
      = three_rows"
    by (simp only: s)
  have r: "rerank_reply unscored_env = Some ''I cannot score these.''"
    by (simp add: unscored_env_def)
  have m: "map id' (merged_rr unscored_env ''duty'') = [3, 2, 1]"
    by code_simp
  have l: "length (merged_rr unscored_env ''duty'') \<le> 10"
    by code_simp
  have ms: "map id' (sort_by_similarity (merged_rr unscored_env ''duty'')) = [1, 2, 3]"
    by code_simp
  from th r l have eq: "finalResults_rr unscored_env ''duty''
      = sort_by_similarity (merged_rr unscored_env ''duty'')"
    by blast
  have f: "map id' (finalResults_rr unscored_env ''duty'') = [1, 2, 3]"
    unfolding eq by (rule ms)
  from th r l have e: "mset (finalResults_rr unscored_env ''duty'')
      = mset (merged_rr unscored_env ''duty'')"
    by blast
  from h a r m l f e show ?thesis by blast
qed

text \<open>
  The claim as stated fails for the route when the merge holds more than ten
  candidates. With fifteen semantic hits of similarity 0.39 down to 0.25 and one keyword
  hit, which the route scores 0.5, the keyword hit is the sixteenth candidate and never
  reaches the stage; the route returns the first ten semantic hits. Six candidates are
  dropped, the one of highest similarity among them.
\<close>

theorem rerank_fallback_drops_counterexample:
  "rerank_reply crowded_env = Some ''I cannot score these.''
   \<and> \<not> has_score_array ''I cannot score these.''
   \<and> map id' (merged_rr crowded_env ''negligence'')
       = [1, 2, 3, 4, 5, 6, 7, 8, 9, 10, 11, 12, 13, 14, 15, 16]
   \<and> map similarity (merged_rr crowded_env ''negligence'')
       = [0.39, 0.38, 0.37, 0.36, 0.35, 0.34, 0.33, 0.32, 0.31, 0.30, 0.29, 0.28, 0.27,
          0.26, 0.25, 0.5]
   \<and> map id' (finalResults_rr crowded_env ''negligence'') = [1, 2, 3, 4, 5, 6, 7, 8, 9, 10]
   \<and> mset (finalResults_rr crowded_env ''negligence'')
       \<noteq> mset (merged_rr crowded_env ''negligence'')"
proof -
  have r: "rerank_reply crowded_env = Some ''I cannot score these.''"
    by (simp add: crowded_env_def)
  have h: "\<not> has_score_array ''I cannot score these.''"
    by code_simp
  have m: "map id' (merged_rr crowded_env ''negligence'')
       = [1, 2, 3, 4, 5, 6, 7, 8, 9, 10, 11, 12, 13, 14, 15, 16]"
    by code_simp
  have s: "map similarity (merged_rr crowded_env ''negligence'')
       = [0.39, 0.38, 0.37, 0.36, 0.35, 0.34, 0.33, 0.32, 0.31, 0.30, 0.29, 0.28, 0.27,
          0.26, 0.25, 0.5]"
    by code_simp
  have f: "map id' (finalResults_rr crowded_env ''negligence'') = [1, 2, 3, 4, 5, 6, 7, 8, 9, 10]"
    by code_simp
  have "mset (finalResults_rr crowded_env ''negligence'')
       \<noteq> mset (merged_rr crowded_env ''negligence'')"
  proof
    assume "mset (finalResults_rr crowded_env ''negligence'')
        = mset (merged_rr crowded_env ''negligence'')"
    then have "mset (map id' (finalResults_rr crowded_env ''negligence''))
        = mset (map id' (merged_rr crowded_env ''negligence''))"
      by simp
    then have "length (map id' (finalResults_rr crowded_env ''negligence''))
        = length (map id' (merged_rr crowded_env ''negligence''))"
      by (rule mset_eq_length)
    then show False unfolding f m by simp
  qed
  with r h m s f show ?thesis by blast
qed

text \<open>
  Claim C9. When the parsed array is shorter than the candidate list, a candidate at an
  index without entry gets the relevance score 5, has its similarity multiplied by
  \<open>1 + 5 / 20\<close>, and is retained by the cutoff at 4.
\<close>

theorem rerank_missing_score_default:
  assumes "parseScores content = Some scores" and "length scores \<le> i"
    and "i < length results"
  shows "score_at scores i = 5
       \<and> apply_score scores i (results ! i)
           = (results ! i)\<lparr>relevanceScore := Some 5,
                            similarity := similarity (results ! i) * (1 + 5 / 20)\<rparr>
       \<and> apply_score scores i (results ! i) \<in> set (rerankWithAI q results (Some content))"
proof -
  from assms(2) have five: "score_at scores i = 5"
    by (simp add: score_at_def)
  then have app: "apply_score scores i (results ! i)
      = (results ! i)\<lparr>relevanceScore := Some 5,
                       similarity := similarity (results ! i) * (1 + 5 / 20)\<rparr>"
    by (simp add: apply_score_def)
  have "apply_score scores i (results ! i) \<in> set (rerankWithAI q results (Some content))"
    unfolding rerank_parsed_set [OF assms(1)] using assms(3) five by auto
  with five app show ?thesis by blast
qed

text \<open>
  A run: the reply \<^verbatim>\<open>[9]\<close> scores only the first of three candidates; the second,
  of similarity 0.7, is kept with relevance score 5 and similarity 0.875.
\<close>

theorem rerank_missing_score_default_witness:
  "parseScores ''[9]'' = Some [9] \<and> length [9::nat] \<le> 1 \<and> 1 < length three_rows
   \<and> (three_rows ! 1)\<lparr>relevanceScore := Some 5, similarity := 0.875\<rparr>
       \<in> set (rerankWithAI ''duty'' three_rows (Some ''[9]''))"
proof -
  have p: "parseScores ''[9]'' = Some [9]"
    by code_simp
  have l: "length [9::nat] \<le> 1" "1 < length three_rows"
    by (simp_all add: three_rows_def)
  have s: "similarity (three_rows ! 1) * (1 + 5 / 20) = 0.875"
    by (simp add: three_rows_def mk_result_def)
  note th = rerank_missing_score_default [OF p l, of "''duty''"]
  from th have e: "apply_score [9] 1 (three_rows ! 1)
      = (three_rows ! 1)\<lparr>relevanceScore := Some 5, similarity := 0.875\<rparr>"
    unfolding s by blast
  from th have "apply_score [9] 1 (three_rows ! 1)
      \<in> set (rerankWithAI ''duty'' three_rows (Some ''[9]''))"
    by blast
  then have "(three_rows ! 1)\<lparr>relevanceScore := Some 5, similarity := 0.875\<rparr>
      \<in> set (rerankWithAI ''duty'' three_rows (Some ''[9]''))"
    by (simp only: e)
  with p l show ?thesis by blast
qed

section \<open>Multi-query variant: result diversification\<close>

subsection \<open>The loop computes the capped walk\<close>

lemma cnt_of_upd: "cnt_of (seen(c \<mapsto> n)) = (cnt_of seen)(c := n)"
  by (auto simp: cnt_of_def fun_eq_iff)

lemma cnt_of_empty: "cnt_of Map.empty = (\<lambda>c. 0)"
  by (simp add: cnt_of_def fun_eq_iff)

lemma diversify_loop_walk:
  "length diversified < K \<Longrightarrow>
   diversify_loop seen diversified rs K =
     diversified @ take (K - length diversified) (cap_walk maxPerCase (cnt_of seen) rs)"
proof (induction rs arbitrary: seen diversified)
  case Nil
  then show ?case by simp
next
  case (Cons r rs)
  let ?c = "cnt_of seen (case_id r)"
  have cc: "(case seen (case_id r) of None \<Rightarrow> 0 | Some c \<Rightarrow> c) = ?c"
    by (simp add: cnt_of_def)
  show ?case
  proof (cases "?c < maxPerCase")
    case True
    show ?thesis
    proof (cases "Suc (length diversified) < K")
      case less: True
      then have "diversify_loop seen diversified (r # rs) K =
          diversify_loop (seen(case_id r \<mapsto> ?c + 1)) (diversified @ [r]) rs K"
        using True by (simp add: cc Let_def)
      also have "\<dots> = (diversified @ [r]) @ take (K - length (diversified @ [r]))
          (cap_walk maxPerCase (cnt_of (seen(case_id r \<mapsto> ?c + 1))) rs)"
        using less by (intro Cons.IH) simp
      also have "\<dots> = diversified @ take (K - length diversified)
          (cap_walk maxPerCase (cnt_of seen) (r # rs))"
        using True less by (simp add: cnt_of_upd take_Cons')
      finally show ?thesis .
    next
      case False
      with Cons.prems have "K = Suc (length diversified)" by simp
      with True show ?thesis
        by (simp add: Let_def cc)
    qed
  next
    case False
    with Cons show ?thesis
      by (simp add: Let_def cc)
  qed
qed

lemma per_parent_cap_walk: "cnt c + per_parent c (cap_walk m cnt rs) \<le> max m (cnt c)"
proof (induction rs arbitrary: cnt)
  case Nil
  then show ?case by (simp add: per_parent_def)
next
  case (Cons r rs)
  show ?case
  proof (cases "cnt (case_id r) < m")
    case True
    let ?cnt' = "cnt(case_id r := cnt (case_id r) + 1)"
    have IH: "?cnt' c + per_parent c (cap_walk m ?cnt' rs) \<le> max m (?cnt' c)"
      by (rule Cons.IH)
    show ?thesis
    proof (cases "case_id r = c")
      case eq: True
      with True IH show ?thesis by (simp add: per_parent_def)
    next
      case False
      with True IH show ?thesis by (simp add: per_parent_def)
    qed
  next
    case False
    with Cons.IH [of cnt] show ?thesis by simp
  qed
qed

lemma subseq_cap_walk: "subseq (cap_walk m cnt rs) rs"
  by (induction rs arbitrary: cnt) auto

lemma per_parent_take: "per_parent c (take k xs) \<le> per_parent c xs"
proof -
  have "xs = take k xs @ drop k xs" by simp
  then have "per_parent c xs = per_parent c (take k xs) + per_parent c (drop k xs)"
    unfolding per_parent_def by (metis filter_append length_append)
  then show ?thesis by simp
qed

lemma diversifyResults_walk:
  "0 < K \<Longrightarrow> diversifyResults rs K = take K (cap_walk 3 (\<lambda>c. 0) rs)"
  using diversify_loop_walk [of "[]" K Map.empty rs]
  by (simp add: diversifyResults_def maxPerCase_def cnt_of_empty)

lemma diversifyResults_subseq: "0 < K \<Longrightarrow> subseq (diversifyResults rs K) rs"
  unfolding diversifyResults_walk
  using subseq_cap_walk subseq_take_self subseq_order.order_trans by blast

lemma per_parent_diversifyResults:
  "0 < K \<Longrightarrow> per_parent c (diversifyResults rs K) \<le> 3"
  using per_parent_cap_walk [of "\<lambda>c. 0" c 3 rs]
    per_parent_take [of c K "cap_walk 3 (\<lambda>c. 0) rs"]
  by (simp add: diversifyResults_walk)

lemma sorted_diversifyResults:
  "0 < K \<Longrightarrow> sorted_wrt P rs \<Longrightarrow> sorted_wrt P (diversifyResults rs K)"
  using diversifyResults_subseq sorted_wrt_subseq_down by blast

text \<open>
  Claim C2. The diversity cap is the constant 3 of \<open>diversifyResults\<close>, and the route
  calls the function once, with the result cap 10, on the fused list sorted by
  descending similarity. The function returns the first ten candidates of the capped
  walk over its input: candidates are emitted in input order, a candidate is skipped
  exactly when three candidates of its \<open>case_id\<close> were emitted before it, and the walk
  stops when ten are emitted or the input is exhausted. Hence the output has at most ten
  entries, at most three per \<open>case_id\<close>, is a subsequence of the input, and is sorted by
  descending similarity when the input is; so is the result list of the route. The same
  holds for every other result cap of at least 1.
\<close>

theorem diversifyResults_capped:
  "diversifyResults rs 10 = take 10 (cap_walk 3 (\<lambda>c. 0) rs)
   \<and> length (diversifyResults rs 10) = min 10 (length (cap_walk 3 (\<lambda>c. 0) rs))
   \<and> length (diversifyResults rs 10) \<le> 10
   \<and> (\<forall>c. per_parent c (diversifyResults rs 10) \<le> 3)
   \<and> subseq (diversifyResults rs 10) rs
   \<and> (sorted_wrt (\<lambda>a b. similarity a \<ge> similarity b) rs \<longrightarrow>
        sorted_wrt (\<lambda>a b. similarity a \<ge> similarity b) (diversifyResults rs 10))
   \<and> finalResults_mq env query crt
        = take 10 (cap_walk 3 (\<lambda>c. 0)
            (sort_by_similarity (map multi_match_boost (merged_mq env query crt))))
   \<and> length (finalResults_mq env query crt) \<le> 10
   \<and> (\<forall>c. per_parent c (finalResults_mq env query crt) \<le> 3)
   \<and> sorted_wrt (\<lambda>a b. similarity a \<ge> similarity b) (finalResults_mq env query crt)
   \<and> (0 < K \<longrightarrow>
        diversifyResults rs K = take K (cap_walk 3 (\<lambda>c. 0) rs)
        \<and> length (diversifyResults rs K) \<le> K
        \<and> (\<forall>c. per_parent c (diversifyResults rs K) \<le> 3))"
proof -
  have pos: "(0::nat) < 10" by simp
  have eq: "diversifyResults xs 10 = take 10 (cap_walk 3 (\<lambda>c. 0) xs)" for xs
    using pos by (rule diversifyResults_walk)
  have len: "length (diversifyResults rs 10) = min 10 (length (cap_walk 3 (\<lambda>c. 0) rs))"
    unfolding eq by simp
  have le: "length (diversifyResults xs 10) \<le> 10" for xs
    unfolding eq by simp
  have pp: "\<forall>c. per_parent c (diversifyResults xs 10) \<le> 3" for xs
    using per_parent_diversifyResults [OF pos] by blast
  have sub: "subseq (diversifyResults rs 10) rs"
    using pos by (rule diversifyResults_subseq)
  have srt: "sorted_wrt (\<lambda>a b. similarity a \<ge> similarity b) rs \<longrightarrow>
        sorted_wrt (\<lambda>a b. similarity a \<ge> similarity b) (diversifyResults rs 10)"
    using sorted_diversifyResults [OF pos] by blast
  have fin: "finalResults_mq env query crt
      = diversifyResults (sort_by_similarity (map multi_match_boost (merged_mq env query crt))) 10"
    by (simp add: finalResults_mq_def)
  have r1: "finalResults_mq env query crt
        = take 10 (cap_walk 3 (\<lambda>c. 0)
            (sort_by_similarity (map multi_match_boost (merged_mq env query crt))))"
    unfolding fin by (rule eq)
  have r2: "length (finalResults_mq env query crt) \<le> 10"
    unfolding fin by (rule le)
  have r3: "\<forall>c. per_parent c (finalResults_mq env query crt) \<le> 3"
    unfolding fin by (rule pp)
  have r4: "sorted_wrt (\<lambda>a b. similarity a \<ge> similarity b) (finalResults_mq env query crt)"
    unfolding fin using pos sort_by_similarity_sorted by (rule sorted_diversifyResults)
  have gen: "0 < K \<longrightarrow>
        diversifyResults rs K = take K (cap_walk 3 (\<lambda>c. 0) rs)
        \<and> length (diversifyResults rs K) \<le> K
        \<and> (\<forall>c. per_parent c (diversifyResults rs K) \<le> 3)"
  proof
    assume K: "0 < K"
    then have e: "diversifyResults rs K = take K (cap_walk 3 (\<lambda>c. 0) rs)"
      by (rule diversifyResults_walk)
    have "length (diversifyResults rs K) \<le> K" unfolding e by simp
    with e per_parent_diversifyResults [OF K]
    show "diversifyResults rs K = take K (cap_walk 3 (\<lambda>c. 0) rs)
        \<and> length (diversifyResults rs K) \<le> K
        \<and> (\<forall>c. per_parent c (diversifyResults rs K) \<le> 3)"
      by blast
  qed
  from eq [of rs] len le [of rs] pp [of rs] sub srt r1 r2 r3 r4 gen show ?thesis
    by (intro conjI)
qed

text \<open>
  Runs of the theorem. Of sixteen passages, four of each of four documents, the walk
  emits three of each of the documents 0 to 2 and the first of document 3, which fills
  the tenth slot; the route returns the same ten for a store that finds these passages.
  And with result cap 4, five passages of document 7 followed by one of document 8 give
  three of document 7 and the passage of document 8.
\<close>

theorem diversifyResults_capped_witness:
  "map id' crowd = [0, 1, 2, 3, 4, 5, 6, 7, 8, 9, 10, 11, 12, 13, 14, 15]
   \<and> map case_id crowd = [0, 0, 0, 0, 1, 1, 1, 1, 2, 2, 2, 2, 3, 3, 3, 3]
   \<and> sorted_wrt (\<lambda>a b. similarity a \<ge> similarity b) crowd
   \<and> map id' (diversifyResults crowd 10) = [0, 1, 2, 4, 5, 6, 8, 9, 10, 12]
   \<and> sorted_wrt (\<lambda>a b. similarity a \<ge> similarity b) (diversifyResults crowd 10)
   \<and> per_parent 0 (diversifyResults crowd 10) = 3
   \<and> map id' (finalResults_mq crowd_env ''tort'' None) = [0, 1, 2, 4, 5, 6, 8, 9, 10, 12]
   \<and> (0::nat) < 4
   \<and> map id' (diversifyResults five_and_one 4) = [1, 2, 3, 6]"
proof -
  note th = diversifyResults_capped [of crowd crowd_env "''tort''" None 4]
  note th' = diversifyResults_capped [of five_and_one crowd_env "''tort''" None 4]
  have i: "map id' crowd = [0, 1, 2, 3, 4, 5, 6, 7, 8, 9, 10, 11, 12, 13, 14, 15]"
    by code_simp
  have c: "map case_id crowd = [0, 0, 0, 0, 1, 1, 1, 1, 2, 2, 2, 2, 3, 3, 3, 3]"
    by code_simp
  have s: "sorted_wrt (\<lambda>a b. similarity a \<ge> similarity b) crowd"
    by code_simp
  have w: "map id' (take 10 (cap_walk 3 (\<lambda>c. 0) crowd)) = [0, 1, 2, 4, 5, 6, 8, 9, 10, 12]"
    by code_simp
  have eq: "diversifyResults crowd 10 = take 10 (cap_walk 3 (\<lambda>c. 0) crowd)"
    using th by (rule conjunct1)
  have r1: "map id' (diversifyResults crowd 10) = [0, 1, 2, 4, 5, 6, 8, 9, 10, 12]"
    unfolding eq by (rule w)
  from th s have r2: "sorted_wrt (\<lambda>a b. similarity a \<ge> similarity b) (diversifyResults crowd 10)"
    by blast
  have p: "per_parent 0 (take 10 (cap_walk 3 (\<lambda>c. 0) crowd)) = 3"
    by code_simp
  have r3: "per_parent 0 (diversifyResults crowd 10) = 3"
    unfolding eq by (rule p)
  have f: "map id' (take 10 (cap_walk 3 (\<lambda>c. 0)
      (sort_by_similarity (map multi_match_boost (merged_mq crowd_env ''tort'' None)))))
      = [0, 1, 2, 4, 5, 6, 8, 9, 10, 12]"
    by code_simp
  from th have "finalResults_mq crowd_env ''tort'' None
      = take 10 (cap_walk 3 (\<lambda>c. 0)
          (sort_by_similarity (map multi_match_boost (merged_mq crowd_env ''tort'' None))))"
    by blast
  then have r4: "map id' (finalResults_mq crowd_env ''tort'' None)
      = [0, 1, 2, 4, 5, 6, 8, 9, 10, 12]"
    by (simp only: f)
  have pos: "(0::nat) < 4" by simp
  have g: "map id' (take 4 (cap_walk 3 (\<lambda>c. 0) five_and_one)) = [1, 2, 3, 6]"
    by code_simp
  from th' pos have "diversifyResults five_and_one 4 = take 4 (cap_walk 3 (\<lambda>c. 0) five_and_one)"
    by blast
  then have r5: "map id' (diversifyResults five_and_one 4) = [1, 2, 3, 6]"
    by (simp only: g)
  from i c s r1 r2 r3 r4 pos r5 show ?thesis by blast
qed

section \<open>The fallback analyzer\<close>

text \<open>
  Claim C7, as amended. When the model is unavailable or its output unparsable, the
  analyzer returns the fallback analysis: \<open>subQueries\<close> is the one-element list of the
  query; \<open>keywords'\<close> are the first five of the lower-cased words longer than four
  characters, with no stopword removed; \<open>legalConcepts\<close> are the words that belong to the
  fixed vocabulary; \<open>queryType\<close> is \<^verbatim>\<open>complex\<close> exactly when the query splits at
  single spaces into more than eight pieces, that is, when it holds more than seven space
  characters, and \<^verbatim>\<open>simple\<close> otherwise.
\<close>

theorem fallback_analysis_result:
  "analyzeQuery query None = fallback_analysis query
   \<and> originalQuery (fallback_analysis query) = query
   \<and> subQueries (fallback_analysis query) = [query]
   \<and> keywords' (fallback_analysis query)
       = take 5 (filter (\<lambda>w. length w > 4) (split_ws (toLowerCase query)))
   \<and> length (keywords' (fallback_analysis query)) \<le> 5
   \<and> (\<forall>k \<in> set (keywords' (fallback_analysis query)).
         length k > 4 \<and> k \<in> set (split_ws (toLowerCase query))
         \<and> (\<forall>c \<in> set k. \<not> is_space c))
   \<and> legalConcepts (fallback_analysis query)
       = filter (\<lambda>w. w \<in> set legal_vocabulary) (split_ws (toLowerCase query))
   \<and> queryType (fallback_analysis query)
       = (if length (split_on (CHR '' '') query) > 8 then ''complex'' else ''simple'')
   \<and> length (split_on (CHR '' '') query) = Suc (length (filter (\<lambda>c. c = CHR '' '') query))"
proof -
  let ?words = "split_ws (toLowerCase query)"
  have kw: "keywords' (fallback_analysis query) = take 5 (filter (\<lambda>w. length w > 4) ?words)"
    by (simp add: fallback_analysis_def Let_def)
  have mem: "length k > 4 \<and> k \<in> set ?words \<and> (\<forall>c \<in> set k. \<not> is_space c)"
    if "k \<in> set (keywords' (fallback_analysis query))" for k
  proof -
    from that have "k \<in> set (filter (\<lambda>w. length w > 4) ?words)"
      unfolding kw by (rule in_set_takeD)
    then show ?thesis using split_ws_no_space by auto
  qed
  have qt: "queryType (fallback_analysis query)
       = (if length (split_on (CHR '' '') query) > 8 then ''complex'' else ''simple'')"
    by (simp add: fallback_analysis_def Let_def)
  have rest: "analyzeQuery query None = fallback_analysis query"
    "originalQuery (fallback_analysis query) = query"
    "subQueries (fallback_analysis query) = [query]"
    "legalConcepts (fallback_analysis query)
       = filter (\<lambda>w. w \<in> set legal_vocabulary) ?words"
    by (simp_all add: analyzeQuery_def fallback_analysis_def Let_def)
  from kw have "length (keywords' (fallback_analysis query)) \<le> 5" by simp
  with kw mem qt rest length_split_on [of "CHR '' ''" query] show ?thesis by blast
qed

text \<open>
  A run: a question of nine words, separated by single spaces, is complex; its keywords
  are the two words longer than four characters, its concepts the three words of the
  vocabulary.
\<close>

theorem fallback_analysis_result_witness:
  "keywords' (analyzeQuery ''What is the duty of care in negligence cases'' None)
     = [''negligence'', ''cases'']
   \<and> legalConcepts (analyzeQuery ''What is the duty of care in negligence cases'' None)
     = [''duty'', ''care'', ''negligence'']
   \<and> queryType (analyzeQuery ''What is the duty of care in negligence cases'' None)
     = ''complex''
   \<and> subQueries (analyzeQuery ''What is the duty of care in negligence cases'' None)
     = [''What is the duty of care in negligence cases'']"
proof -
  note th = fallback_analysis_result [of "''What is the duty of care in negligence cases''"]
  have w: "split_ws (toLowerCase ''What is the duty of care in negligence cases'')
      = [''what'', ''is'', ''the'', ''duty'', ''of'', ''care'', ''in'', ''negligence'',
         ''cases'']"
    by code_simp
  have n: "length (split_on (CHR '' '') ''What is the duty of care in negligence cases'') = 9"
    by code_simp
  from th have eq: "analyzeQuery ''What is the duty of care in negligence cases'' None
      = fallback_analysis ''What is the duty of care in negligence cases''"
    by blast
  from th have k: "keywords' (fallback_analysis ''What is the duty of care in negligence cases'')
      = [''negligence'', ''cases'']"
    unfolding w by simp
  from th have l: "legalConcepts (fallback_analysis ''What is the duty of care in negligence cases'')
      = [''duty'', ''care'', ''negligence'']"
    unfolding w by (simp add: legal_vocabulary_def)
  from th have t: "queryType (fallback_analysis ''What is the duty of care in negligence cases'')
      = ''complex''"
    unfolding n by simp
  from th have s: "subQueries (fallback_analysis ''What is the duty of care in negligence cases'')
      = [''What is the duty of care in negligence cases'']"
    by blast
  from k l t s show ?thesis unfolding eq by blast
qed

text \<open>
  The claim as stated fails on both counts that the amendment changes. The word
  \<^verbatim>\<open>where\<close>, a stopword of the keyword extraction of the other routes, is a
  fallback keyword; and a query of five words that are separated by two spaces each is
  classified as complex.
\<close>

theorem fallback_keeps_stopwords_counterexample:
  "keywords' (analyzeQuery ''where is the duty'' None) = [''where'']
   \<and> ''where'' \<in> set stopwords_rr
   \<and> spec_fallback_keywords stopwords_rr ''where is the duty'' = []
   \<and> word_count ''a  b  c  d  e'' = 5
   \<and> queryType (analyzeQuery ''a  b  c  d  e'' None) = ''complex''"
  by code_simp

section \<open>Facts about the multi-query fusion\<close>

lemma map_id_update_first:
  "(\<And>x. id' (f x) = id' x) \<Longrightarrow> map id' (update_first P f xs) = map id' xs"
  by (induction xs) auto




lemma id_reinforce: "id' (reinforce tag factor r) = id' r"
  by (simp add: reinforce_def)


lemma merge_result_ids_distinct:
  assumes "distinct (map id' allResults)"
  shows "distinct (map id' (merge_result tag factor allResults result))"
proof (cases "find (\<lambda>r. id' r = id' result) allResults")
  case None
  then have "id' result \<notin> id' ` set allResults"
    by (auto simp: find_None_iff)
  with assms None show ?thesis
    by (simp add: merge_result_def)
next
  case (Some existing)
  with assms show ?thesis
    by (simp add: merge_result_def map_id_update_first id_reinforce)
qed

lemma fold_merge_distinct:
  "distinct (map id' allResults) \<Longrightarrow>
   distinct (map id' (fold (\<lambda>result acc. merge_result tag factor acc result) rows allResults))"
  by (induction rows arbitrary: allResults) (auto intro: merge_result_ids_distinct)

lemma subquery_step_distinct:
  "distinct (map id' allResults) \<Longrightarrow> distinct (map id' (subquery_step env crt subs allResults))"
  unfolding subquery_step_def
  by (induction subs arbitrary: allResults) (auto intro: fold_merge_distinct)

lemma keyword_step_mq_distinct:
  "distinct (map id' allResults) \<Longrightarrow> distinct (map id' (keyword_step_mq env crt kws allResults))"
  by (simp add: keyword_step_mq_def fold_merge_distinct)









section \<open>Uniqueness of identifiers\<close>

lemma map_id_scored:
  "map id' (map (\<lambda>(i, r). apply_score scores i r) (enumerate n results)) = map id' results"
  by (induction results arbitrary: n) (auto simp: id_apply_score)

lemma distinct_map_sort_key: "distinct (map f (sort_key k xs)) = distinct (map f xs)"
  by (simp add: distinct_map)

lemma rerank_distinct:
  assumes "distinct (map id' results)"
  shows "distinct (map id' (rerankWithAI q results reply))"
proof -
  have fb: "distinct (map id' (sort_by_similarity results))"
    using assms by (simp add: sort_by_similarity_def distinct_map_sort_key)
  show ?thesis
  proof (cases reply)
    case None
    with fb show ?thesis by (simp add: rerankWithAI_def)
  next
    case (Some content)
    show ?thesis
    proof (cases "parseScores content")
      case None
      with Some fb show ?thesis by (simp add: rerankWithAI_def)
    next
      case (Some scores)
      have "distinct (map id' (map (\<lambda>(i, r). apply_score scores i r) (enumerate 0 results)))"
        unfolding map_id_scored by (rule assms)
      then have "distinct (map id' (filter (\<lambda>r. relevance_or_5 r \<ge> 4)
          (map (\<lambda>(i, r). apply_score scores i r) (enumerate 0 results))))"
        by (rule distinct_map_filter)
      then show ?thesis
        unfolding \<open>reply = Some content\<close> rerank_parsed_eq [OF Some] distinct_map_sort_key .
    qed
  qed
qed

lemma finalResults_kb_distinct: "distinct (map id' (finalResults_kb env query))"
  unfolding finalResults_kb_def take_map [symmetric]
  by (rule distinct_take) (rule deduplicate_distinct)

lemma finalResults_rr_distinct: "distinct (map id' (finalResults_rr env query))"
proof -
  have m: "distinct (map id' (merged_rr env query))"
    unfolding merged_rr_def by (rule deduplicate_distinct)
  then have "distinct (map id' (take 15 (merged_rr env query)))"
    unfolding take_map [symmetric] by (rule distinct_take)
  then have r: "distinct (map id' (rerankWithAI query (take 15 (merged_rr env query)) (rerank_reply env)))"
    by (rule rerank_distinct)
  have "distinct (map id' (if length (merged_rr env query) > 0
       then rerankWithAI query (take 15 (merged_rr env query)) (rerank_reply env)
       else merged_rr env query))"
    using m r by simp
  then show ?thesis
    unfolding finalResults_rr_def Let_def take_map [symmetric] by (rule distinct_take)
qed

lemma subseq_distinct: "subseq xs ys \<Longrightarrow> distinct ys \<Longrightarrow> distinct xs"
  by (induction rule: list_emb.induct) (auto dest: list_emb_set)

lemma subseq_distinct_map:
  "subseq xs ys \<Longrightarrow> distinct (map f ys) \<Longrightarrow> distinct (map f xs)"
  using subseq_map [of xs ys f] subseq_distinct by blast

lemma finalResults_mq_distinct:
  assumes "distinct (map id' (semanticSearch env query crt 0.40))"
  shows "distinct (map id' (finalResults_mq env query crt))"
proof -
  have "map id' (main_step env query crt) = map id' (semanticSearch env query crt 0.40)"
    by (simp add: main_step_def)
  with assms have "distinct (map id' (main_step env query crt))" by simp
  then have "distinct (map id' (merged_mq env query crt))"
    unfolding merged_mq_def Let_def
    by (intro keyword_step_mq_distinct subquery_step_distinct)
  then have "distinct (map id' (map multi_match_boost (merged_mq env query crt)))"
    by (simp add: multi_match_boost_def comp_def)
  then have "distinct (map id' (sort_by_similarity (map multi_match_boost (merged_mq env query crt))))"
    unfolding sort_by_similarity_def distinct_map_sort_key .
  moreover have "subseq (finalResults_mq env query crt)
      (sort_by_similarity (map multi_match_boost (merged_mq env query crt)))"
    unfolding finalResults_mq_def by (rule diversifyResults_subseq) simp
  ultimately show ?thesis by (rule subseq_distinct_map [rotated])
qed

section \<open>Requests without candidates\<close>

lemma fold_no_rows:
  "\<forall>kw \<in> set kws. fetch kw = None \<or> fetch kw = Some [] \<Longrightarrow>
   fold (\<lambda>keyword acc. case fetch keyword of None \<Rightarrow> acc
           | Some keywordResults \<Rightarrow> fold (\<lambda>result acc'. add acc' result) keywordResults acc)
     kws allResults = allResults"
  by (induction kws arbitrary: allResults) auto

lemma finalResults_kb_empty:
  assumes "signals_empty env (take 5 (extract_keywords stopwords_kb query))"
  shows "finalResults_kb env query = []"
proof -
  from assms have s: "semantic_step env = []"
    and k: "\<forall>kw \<in> set (take 5 (extract_keywords stopwords_kb query)).
        keyword_rows env kw = None \<or> keyword_rows env kw = Some []"
    by (simp_all add: signals_empty_def)
  have "keyword_step (keyword_rows env) (extract_keywords stopwords_kb query) [] = []"
    unfolding keyword_step_def using k by (rule fold_no_rows)
  then show ?thesis
    by (simp add: finalResults_kb_def boosted_sorted_def Let_def s sort_by_similarity_def
        deduplicate_def)
qed

lemma finalResults_rr_empty:
  assumes "signals_empty env (take 4 (extract_keywords stopwords_rr query))"
  shows "finalResults_rr env query = []"
proof -
  from assms have s: "semantic_step env = []"
    and k: "\<forall>kw \<in> set (take 4 (extract_keywords stopwords_rr query)).
        keyword_rows env kw = None \<or> keyword_rows env kw = Some []"
    by (simp_all add: signals_empty_def)
  have "keyword_step_rr (keyword_rows env) (extract_keywords stopwords_rr query) [] = []"
    unfolding keyword_step_rr_def using k by (rule fold_no_rows)
  then show ?thesis
    by (simp add: finalResults_rr_def merged_rr_def Let_def s deduplicate_def)
qed

lemma semanticSearch_empty:
  "signals_empty_mq env \<Longrightarrow> semanticSearch env q crt t = []"
proof -
  assume "signals_empty_mq env"
  then have "vector_search env q t = None \<or> vector_search env q t = Some []"
    unfolding signals_empty_mq_def by blast
  then show ?thesis
    by (auto simp: semanticSearch_def court_filter_def split: option.splits)
qed

lemma keywordSearch_empty:
  "signals_empty_mq env \<Longrightarrow> keywordSearch env kws crt = []"
proof -
  assume "signals_empty_mq env"
  then have "keyword_search env (take 4 kws) crt = None \<or> keyword_search env (take 4 kws) crt = Some []"
    unfolding signals_empty_mq_def by blast
  then show ?thesis
    by (auto simp: keywordSearch_def)
qed

lemma subquery_step_empty:
  "signals_empty_mq env \<Longrightarrow> subquery_step env crt subs allResults = allResults"
  unfolding subquery_step_def
  by (induction subs arbitrary: allResults) (simp_all add: semanticSearch_empty)

lemma diversifyResults_Nil: "diversifyResults [] K = []"
  by (simp add: diversifyResults_def)

lemma finalResults_mq_empty:
  assumes "signals_empty_mq env"
  shows "finalResults_mq env query crt = []"
proof -
  have "merged_mq env query crt = []"
    using assms
    by (simp add: merged_mq_def Let_def keyword_step_mq_def keywordSearch_empty
        subquery_step_empty main_step_def semanticSearch_empty)
  then show ?thesis
    by (simp add: finalResults_mq_def sort_by_similarity_def diversifyResults_Nil)
qed

lemma semantic_step_vector_down:
  "vector_rows env = None \<Longrightarrow> semantic_step env = semantic_step (env\<lparr>vector_rows := Some []\<rparr>)"
  by (simp add: semantic_step_def)

lemma POST_kb_vector_down:
  assumes "vector_rows env = None"
  shows "POST_kb env req = POST_kb (env\<lparr>vector_rows := Some []\<rparr>) req"
proof -
  have b: "boosted_sorted env query = boosted_sorted (env\<lparr>vector_rows := Some []\<rparr>) query" for query
    by (simp add: boosted_sorted_def Let_def semantic_step_vector_down [OF assms])
  show ?thesis
    by (simp add: POST_kb_def finalResults_kb_def b Let_def split: request.splits option.splits)
qed

lemma POST_rr_vector_down:
  assumes "vector_rows env = None"
  shows "POST_rr env req = POST_rr (env\<lparr>vector_rows := Some []\<rparr>) req"
proof -
  have m: "merged_rr env query = merged_rr (env\<lparr>vector_rows := Some []\<rparr>) query" for query
    by (simp add: merged_rr_def semantic_step_vector_down [OF assms])
  have f: "finalResults_rr env query = finalResults_rr (env\<lparr>vector_rows := Some []\<rparr>) query"
    for query
    by (simp add: finalResults_rr_def m [symmetric] Let_def)
  show ?thesis
    by (simp add: POST_rr_def f [symmetric] Let_def split: request.splits option.splits)
qed

lemma semanticSearch_failures_as_empty:
  "semanticSearch
     (env\<lparr>vector_search := \<lambda>q t. Some (case vector_search env q t of None \<Rightarrow> [] | Some rows \<Rightarrow> rows)\<rparr>)
     q crt t
   = semanticSearch env q crt t"
  by (simp add: semanticSearch_def court_filter_def split: option.splits)

lemma keywordSearch_failures_as_empty:
  "keywordSearch
     (env\<lparr>vector_search := \<lambda>q t. Some (case vector_search env q t of None \<Rightarrow> [] | Some rows \<Rightarrow> rows)\<rparr>)
     kws crt
   = keywordSearch env kws crt"
  by (simp add: keywordSearch_def)

lemma POST_mq_vector_down:
  "POST_mq env req
   = POST_mq
       (env\<lparr>vector_search := \<lambda>q t. Some (case vector_search env q t of None \<Rightarrow> [] | Some rows \<Rightarrow> rows)\<rparr>)
       req"
proof -
  let ?env = "env\<lparr>vector_search :=
      \<lambda>q t. Some (case vector_search env q t of None \<Rightarrow> [] | Some rows \<Rightarrow> rows)\<rparr>"
  have a: "analysis_reply ?env = analysis_reply env" "answer_reply ?env = answer_reply env"
    by simp_all
  have m: "main_step ?env query crt = main_step env query crt" for query crt
    unfolding main_step_def semanticSearch_failures_as_empty ..
  have s: "subquery_step ?env crt subs acc = subquery_step env crt subs acc" for crt subs acc
    unfolding subquery_step_def semanticSearch_failures_as_empty ..
  have k: "keyword_step_mq ?env crt kws acc = keyword_step_mq env crt kws acc" for crt kws acc
    unfolding keyword_step_mq_def keywordSearch_failures_as_empty ..
  have g: "merged_mq ?env query crt = merged_mq env query crt" for query crt
    unfolding merged_mq_def a m s k ..
  have f: "finalResults_mq ?env query crt = finalResults_mq env query crt" for query crt
    unfolding finalResults_mq_def g ..
  show ?thesis
    unfolding POST_mq_def a f ..
qed

lemma POST_fb_not_ok:
  assumes "fb_search env = NotOk"
  shows "POST_fb env req = POST_fb (env\<lparr>fb_search := Ok []\<rparr>) req"
proof -
  have s: "semantic_fb (env\<lparr>fb_search := Ok []\<rparr>) = semantic_fb env"
    using assms by (simp add: semantic_fb_def)
  have k: "keyword_fb (env\<lparr>fb_search := Ok []\<rparr>) query = keyword_fb env query" for query
    by (simp add: keyword_fb_def)
  have r: "respond_fb (env\<lparr>fb_search := Ok []\<rparr>) query rows = respond_fb env query rows"
    for query rows
    by (simp add: respond_fb_def)
  show ?thesis
    unfolding POST_fb_def s k r ..
qed

lemma POST_fb_threw:
  "query \<noteq> [] \<Longrightarrow> fb_embedding_ok env \<Longrightarrow> fb_search env = Threw \<Longrightarrow>
   POST_fb env (Request (Some query) crt) = ErrorResponse 500 ''Search failed. Please try again.''"
  by (simp add: POST_fb_def semantic_fb_def)

lemma POST_fb_empty:
  "query \<noteq> [] \<Longrightarrow> semantic_fb env = Some [] \<Longrightarrow> keyword_fb env query = Some [] \<Longrightarrow>
   POST_fb env (Request (Some query) crt)
     = OkResponse \<lparr> body_query = query, body_results = [], body_aiAnswer = None \<rparr>"
  by (simp add: POST_fb_def respond_fb_def)

section \<open>The agreement boost\<close>


















section \<open>Duplicated identifiers in the multi-query variant\<close>

text \<open>
  Claim C4 at its failing input. The keyword-boost and the rerank variant filter their
  candidates through a set of seen ids (\<open>finalResults_kb_distinct\<close>,
  \<open>finalResults_rr_distinct\<close>). The multi-query variant, whose step 4 is headed
  \<^verbatim>\<open>Re-rank and Deduplicate\<close>, has no such filter: its ids are distinct when those of
  the main search are (\<open>finalResults_mq_distinct\<close>), and a row that the main search
  returns twice is returned twice.
\<close>

theorem multi_query_duplicate_ids:
  "map id' (finalResults_mq twice_env ''tort'' None) = [1, 1]
   \<and> \<not> distinct (map id' (finalResults_mq twice_env ''tort'' None))"
proof -
  have "map id' (finalResults_mq twice_env ''tort'' None) = [1, 1]"
    by code_simp
  then show ?thesis by simp
qed

section \<open>Responses when retrieval fails\<close>

text \<open>
  Claim C8, as amended. In the keyword-boost, the rerank and the multi-query variant a
  request with a non-empty query is answered with status 200 whatever the retrieval
  calls do; when every retrieval signal fails or returns nothing, the results are empty
  and the answer is the guidance text of the route, a function of the query (and, in the
  multi-query variant, of the analysis). In these three variants a failed vector-store
  call gives the response that an empty row list gives: the request goes on with the
  rows of the other searches. In the basic variant a vector-store call that is not OK
  ends the request with status 500 and the message \<^verbatim>\<open>Search failed\<close>, and an
  empty row list gives status 200 with no answer. In the fallback variant a vector-store
  call that is not OK gives the response that an empty row list gives, a vector-store
  call that throws ends the request with status 500, and a request without candidates is
  answered with status 200 and no answer.
\<close>

theorem retrieval_failure_responses:
  assumes "query \<noteq> []"
  shows "http_status (POST_kb kenv (Request (Some query) crt)) = 200
       \<and> http_status (POST_rr renv (Request (Some query) crt)) = 200
       \<and> http_status (POST_mq menv (Request (Some query) crt)) = 200
       \<and> (signals_empty kenv (take 5 (extract_keywords stopwords_kb query)) \<longrightarrow>
            (\<exists>b. POST_kb kenv (Request (Some query) crt) = OkResponse b
                 \<and> body_results b = [] \<and> body_aiAnswer b = Some (guidance_kb query)))
       \<and> (signals_empty renv (take 4 (extract_keywords stopwords_rr query)) \<longrightarrow>
            (\<exists>b. POST_rr renv (Request (Some query) crt) = OkResponse b
                 \<and> body_results b = [] \<and> body_aiAnswer b = Some (guidance_rr query)))
       \<and> (signals_empty_mq menv \<longrightarrow>
            (\<exists>b. POST_mq menv (Request (Some query) crt) = OkResponse b
                 \<and> body_results b = []
                 \<and> body_aiAnswer b
                     = Some (generateNoResultsGuidance query
                               (analyzeQuery query (analysis_reply menv)))))
       \<and> (vector_rows kenv = None \<longrightarrow>
            POST_kb kenv (Request (Some query) crt)
              = POST_kb (kenv\<lparr>vector_rows := Some []\<rparr>) (Request (Some query) crt))
       \<and> (vector_rows renv = None \<longrightarrow>
            POST_rr renv (Request (Some query) crt)
              = POST_rr (renv\<lparr>vector_rows := Some []\<rparr>) (Request (Some query) crt))
       \<and> POST_mq menv (Request (Some query) crt)
           = POST_mq
               (menv\<lparr>vector_search :=
                  \<lambda>q t. Some (case vector_search menv q t of None \<Rightarrow> [] | Some rows \<Rightarrow> rows)\<rparr>)
               (Request (Some query) crt)
       \<and> (basic_embedding benv = Ok u \<and> basic_search benv = NotOk \<longrightarrow>
            POST_basic benv (Request (Some query) crt) = ErrorResponse 500 ''Search failed'')
       \<and> (basic_embedding benv = Ok u \<and> basic_search benv = Ok [] \<longrightarrow>
            POST_basic benv (Request (Some query) crt)
              = OkResponse \<lparr> body_query = query, body_results = [], body_aiAnswer = None \<rparr>)
       \<and> (fb_search fenv = NotOk \<longrightarrow>
            POST_fb fenv (Request (Some query) crt)
              = POST_fb (fenv\<lparr>fb_search := Ok []\<rparr>) (Request (Some query) crt))
       \<and> (fb_embedding_ok fenv \<and> fb_search fenv = Threw \<longrightarrow>
            POST_fb fenv (Request (Some query) crt)
              = ErrorResponse 500 ''Search failed. Please try again.'')
       \<and> (semantic_fb fenv = Some [] \<and> keyword_fb fenv query = Some [] \<longrightarrow>
            POST_fb fenv (Request (Some query) crt)
              = OkResponse \<lparr> body_query = query, body_results = [], body_aiAnswer = None \<rparr>)"
proof -
  have s1: "http_status (POST_kb kenv (Request (Some query) crt)) = 200"
    using assms by (simp add: POST_kb_def Let_def)
  have s2: "http_status (POST_rr renv (Request (Some query) crt)) = 200"
    using assms by (simp add: POST_rr_def Let_def)
  have s3: "http_status (POST_mq menv (Request (Some query) crt)) = 200"
    using assms by (simp add: POST_mq_def Let_def)
  have e1: "\<exists>b. POST_kb kenv (Request (Some query) crt) = OkResponse b
        \<and> body_results b = [] \<and> body_aiAnswer b = Some (guidance_kb query)"
    if "signals_empty kenv (take 5 (extract_keywords stopwords_kb query))"
    using assms finalResults_kb_empty [OF that] by (simp add: POST_kb_def Let_def)
  have e2: "\<exists>b. POST_rr renv (Request (Some query) crt) = OkResponse b
        \<and> body_results b = [] \<and> body_aiAnswer b = Some (guidance_rr query)"
    if "signals_empty renv (take 4 (extract_keywords stopwords_rr query))"
    using assms finalResults_rr_empty [OF that] by (simp add: POST_rr_def Let_def)
  have e3: "\<exists>b. POST_mq menv (Request (Some query) crt) = OkResponse b
        \<and> body_results b = []
        \<and> body_aiAnswer b
            = Some (generateNoResultsGuidance query (analyzeQuery query (analysis_reply menv)))"
    if "signals_empty_mq menv"
    using assms finalResults_mq_empty [OF that] by (simp add: POST_mq_def Let_def)
  have d1: "POST_kb kenv (Request (Some query) crt)
      = POST_kb (kenv\<lparr>vector_rows := Some []\<rparr>) (Request (Some query) crt)"
    if "vector_rows kenv = None"
    using that by (rule POST_kb_vector_down)
  have d2: "POST_rr renv (Request (Some query) crt)
      = POST_rr (renv\<lparr>vector_rows := Some []\<rparr>) (Request (Some query) crt)"
    if "vector_rows renv = None"
    using that by (rule POST_rr_vector_down)
  have d3: "POST_mq menv (Request (Some query) crt)
      = POST_mq
          (menv\<lparr>vector_search :=
             \<lambda>q t. Some (case vector_search menv q t of None \<Rightarrow> [] | Some rows \<Rightarrow> rows)\<rparr>)
          (Request (Some query) crt)"
    by (rule POST_mq_vector_down)
  have b1: "POST_basic benv (Request (Some query) crt) = ErrorResponse 500 ''Search failed''"
    if "basic_embedding benv = Ok u \<and> basic_search benv = NotOk"
    using assms that by (simp add: POST_basic_def)
  have b2: "POST_basic benv (Request (Some query) crt)
      = OkResponse \<lparr> body_query = query, body_results = [], body_aiAnswer = None \<rparr>"
    if "basic_embedding benv = Ok u \<and> basic_search benv = Ok []"
    using assms that by (simp add: POST_basic_def)
  have f1: "POST_fb fenv (Request (Some query) crt)
      = POST_fb (fenv\<lparr>fb_search := Ok []\<rparr>) (Request (Some query) crt)"
    if "fb_search fenv = NotOk"
    using that by (rule POST_fb_not_ok)
  have f2: "POST_fb fenv (Request (Some query) crt)
      = ErrorResponse 500 ''Search failed. Please try again.''"
    if "fb_embedding_ok fenv \<and> fb_search fenv = Threw"
    using assms that by (simp add: POST_fb_threw)
  have f3: "POST_fb fenv (Request (Some query) crt)
      = OkResponse \<lparr> body_query = query, body_results = [], body_aiAnswer = None \<rparr>"
    if "semantic_fb fenv = Some [] \<and> keyword_fb fenv query = Some []"
    using assms that by (simp add: POST_fb_empty)
  from s1 s2 s3 e1 e2 e3 d1 d2 d3 b1 b2 f1 f2 f3 show ?thesis by blast
qed

text \<open>
  Runs. With the embedding service, the vector store and the text search all down, the
  keyword-boost, the rerank and the multi-query route answer the query
  \<^verbatim>\<open>negligence test\<close> with status 200, no result and their guidance text. With the
  embedding service up, the vector store down and a text search that finds the passage
  5, the three routes answer with status 200 and that passage. The basic route, with its
  vector store answering an error status, answers 500; the fallback route, with both
  searches answering an error status, answers 200 with no result and no answer.
\<close>

theorem retrieval_failure_responses_witness:
  "''negligence test'' \<noteq> []
   \<and> signals_empty dead_env (take 5 (extract_keywords stopwords_kb ''negligence test''))
   \<and> http_status (POST_kb dead_env (Request (Some ''negligence test'') None)) = 200
   \<and> (\<exists>b. POST_kb dead_env (Request (Some ''negligence test'') None) = OkResponse b
          \<and> body_results b = []
          \<and> body_aiAnswer b = Some (guidance_kb ''negligence test''))
   \<and> signals_empty dead_env_rr (take 4 (extract_keywords stopwords_rr ''negligence test''))
   \<and> (\<exists>b. POST_rr dead_env_rr (Request (Some ''negligence test'') None) = OkResponse b
          \<and> body_results b = []
          \<and> body_aiAnswer b = Some (guidance_rr ''negligence test''))
   \<and> signals_empty_mq dead_env_mq
   \<and> (\<exists>b. POST_mq dead_env_mq (Request (Some ''negligence test'') None) = OkResponse b
          \<and> body_results b = []
          \<and> body_aiAnswer b = Some (generateNoResultsGuidance ''negligence test''
               (analyzeQuery ''negligence test'' None)))
   \<and> embedding_ok vector_down_env \<and> vector_rows vector_down_env = None
   \<and> POST_kb vector_down_env (Request (Some ''negligence test'') None)
       = POST_kb (vector_down_env\<lparr>vector_rows := Some []\<rparr>)
           (Request (Some ''negligence test'') None)
   \<and> http_status (POST_kb vector_down_env (Request (Some ''negligence test'') None)) = 200
   \<and> map id' (finalResults_kb vector_down_env ''negligence test'') = [5]
   \<and> embedding_ok vector_down_env_rr \<and> vector_rows vector_down_env_rr = None
   \<and> POST_rr vector_down_env_rr (Request (Some ''negligence test'') None)
       = POST_rr (vector_down_env_rr\<lparr>vector_rows := Some []\<rparr>)
           (Request (Some ''negligence test'') None)
   \<and> http_status (POST_rr vector_down_env_rr (Request (Some ''negligence test'') None)) = 200
   \<and> map id' (finalResults_rr vector_down_env_rr ''negligence test'') = [5]
   \<and> http_status (POST_mq vector_down_env_mq (Request (Some ''negligence test'') None)) = 200
   \<and> map id' (finalResults_mq vector_down_env_mq ''negligence test'' None) = [5]
   \<and> basic_embedding store_down = Ok () \<and> basic_search store_down = NotOk
   \<and> POST_basic store_down (Request (Some ''negligence test'') None)
       = ErrorResponse 500 ''Search failed''
   \<and> semantic_fb fb_down = Some [] \<and> keyword_fb fb_down ''negligence test'' = Some []
   \<and> POST_fb fb_down (Request (Some ''negligence test'') None)
       = OkResponse \<lparr> body_query = ''negligence test'', body_results = [],
                       body_aiAnswer = None \<rparr>"
proof -
  have q: "''negligence test'' \<noteq> []" by simp
  note th = retrieval_failure_responses [OF q, of dead_env None dead_env_rr dead_env_mq
      store_down "()" fb_down]
  note th2 = retrieval_failure_responses [OF q, of vector_down_env None vector_down_env_rr
      vector_down_env_mq store_down "()" fb_down]
  have g: "semantic_fb fb_down = Some []" "keyword_fb fb_down ''negligence test'' = Some []"
    by (simp_all add: semantic_fb_def keyword_fb_def fb_down_def Let_def)
  from th g have r5: "POST_fb fb_down (Request (Some ''negligence test'') None)
       = OkResponse \<lparr> body_query = ''negligence test'', body_results = [],
                       body_aiAnswer = None \<rparr>"
    by blast
  have e1: "signals_empty dead_env (take 5 (extract_keywords stopwords_kb ''negligence test''))"
    by (simp add: signals_empty_def dead_env_def semantic_step_def)
  have e2: "signals_empty dead_env_rr
      (take 4 (extract_keywords stopwords_rr ''negligence test''))"
    by (simp add: signals_empty_def dead_env_rr_def semantic_step_def)
  have e3: "signals_empty_mq dead_env_mq"
    by (simp add: signals_empty_mq_def dead_env_mq_def)
  have a: "analysis_reply dead_env_mq = None" by (simp add: dead_env_mq_def)
  have b: "basic_embedding store_down = Ok ()" "basic_search store_down = NotOk"
    by (simp_all add: store_down_def)
  from th have s1: "http_status (POST_kb dead_env (Request (Some ''negligence test'') None)) = 200"
    by blast
  from th e1 have r1: "\<exists>b. POST_kb dead_env (Request (Some ''negligence test'') None) = OkResponse b
      \<and> body_results b = []
      \<and> body_aiAnswer b = Some (guidance_kb ''negligence test'')"
    by blast
  from th e2 have r2: "\<exists>b. POST_rr dead_env_rr (Request (Some ''negligence test'') None)
        = OkResponse b
      \<and> body_results b = []
      \<and> body_aiAnswer b = Some (guidance_rr ''negligence test'')"
    by blast
  from th e3 have r3: "\<exists>b. POST_mq dead_env_mq (Request (Some ''negligence test'') None)
        = OkResponse b
      \<and> body_results b = []
      \<and> body_aiAnswer b = Some (generateNoResultsGuidance ''negligence test''
           (analyzeQuery ''negligence test'' None))"
    unfolding a by blast
  from th b have r4: "POST_basic store_down (Request (Some ''negligence test'') None)
      = ErrorResponse 500 ''Search failed''"
    by blast
  have v1: "embedding_ok vector_down_env" "vector_rows vector_down_env = None"
    by (simp_all add: vector_down_env_def)
  have v2: "embedding_ok vector_down_env_rr" "vector_rows vector_down_env_rr = None"
    by (simp_all add: vector_down_env_rr_def)
  from th2 v1 have k1: "POST_kb vector_down_env (Request (Some ''negligence test'') None)
       = POST_kb (vector_down_env\<lparr>vector_rows := Some []\<rparr>)
           (Request (Some ''negligence test'') None)"
    by blast
  from th2 have k2: "http_status (POST_kb vector_down_env (Request (Some ''negligence test'') None))
      = 200"
    by blast
  have k3: "map id' (finalResults_kb vector_down_env ''negligence test'') = [5]"
    by code_simp
  from th2 v2 have l1: "POST_rr vector_down_env_rr (Request (Some ''negligence test'') None)
       = POST_rr (vector_down_env_rr\<lparr>vector_rows := Some []\<rparr>)
           (Request (Some ''negligence test'') None)"
    by blast
  from th2 have l2: "http_status (POST_rr vector_down_env_rr
      (Request (Some ''negligence test'') None)) = 200"
    by blast
  have l3: "map id' (finalResults_rr vector_down_env_rr ''negligence test'') = [5]"
    by code_simp
  from th2 have m2: "http_status (POST_mq vector_down_env_mq
      (Request (Some ''negligence test'') None)) = 200"
    by blast
  have m3: "map id' (finalResults_mq vector_down_env_mq ''negligence test'' None) = [5]"
    by code_simp
  from q e1 s1 r1 e2 r2 e3 r3 v1 k1 k2 k3 v2 l1 l2 l3 m2 m3 b r4 g r5 show ?thesis
    by (intro conjI)
qed

text \<open>
  The claim as stated fails in the basic variant: a vector-store call that is not OK ends
  the request with status 500, and an empty row list leaves the answer empty instead of a
  guidance text.
\<close>

theorem vector_store_failure_counterexample:
  "POST_basic store_down (Request (Some ''negligence'') None)
     = ErrorResponse 500 ''Search failed''
   \<and> http_status (POST_basic store_down (Request (Some ''negligence'') None)) = 500
   \<and> POST_basic store_empty (Request (Some ''negligence'') None)
     = OkResponse \<lparr> body_query = ''negligence'', body_results = [], body_aiAnswer = None \<rparr>"
  by (simp add: POST_basic_def store_down_def store_empty_def)

end
